theory Spec2Isabelle
  imports Main "HOL-Library.Sublist"
begin

section \<open>Domain model (src/lib/types.ts)\<close>

text \<open>
  The TypeScript types are string-literal unions and object types. A union of string
  literals is a datatype together with the string each constructor stands for; an object
  type is a record. Field names are prefixed with the entity they belong to, since
  several entities declare \<open>id\<close>, \<open>name\<close> and \<open>description\<close>. An optional field
  (\<open>defaultValue?\<close>) is an \<open>option\<close>: \<open>None\<close> is the absent (undefined) field.
  Strings are \<open>string\<close>; every character is read as one code unit.
\<close>

datatype ParameterKind =
    KBool | KInt | KFloat | KString | KVector | KRotator | KTransform
  | KObject | KName | KArray | KMap

fun kind_text :: "ParameterKind \<Rightarrow> string" where
  "kind_text KBool = ''bool''"
| "kind_text KInt = ''int''"
| "kind_text KFloat = ''float''"
| "kind_text KString = ''string''"
| "kind_text KVector = ''vector''"
| "kind_text KRotator = ''rotator''"
| "kind_text KTransform = ''transform''"
| "kind_text KObject = ''object''"
| "kind_text KName = ''name''"
| "kind_text KArray = ''array''"
| "kind_text KMap = ''map''"

record BlueprintParameter =
  param_id :: string
  param_name :: string
  param_kind :: ParameterKind
  param_defaultValue :: "string option"
  param_description :: "string option"
  param_isArray :: "bool option"

record BlueprintNode =
  node_id :: string
  node_title :: string
  node_category :: string
  node_description :: string
  node_inputs :: "BlueprintParameter list"
  node_outputs :: "BlueprintParameter list"
  node_body :: string

record CommandBinding =
  command_id :: string
  command_name :: string
  command_context :: string
  command_hotkey :: string
  command_description :: string
  command_script :: string

datatype ModuleTarget = Editor | Runtime | EditorAndRuntime

fun target_text :: "ModuleTarget \<Rightarrow> string" where
  "target_text Editor = ''Editor''"
| "target_text Runtime = ''Runtime''"
| "target_text EditorAndRuntime = ''EditorAndRuntime''"

record AddonModule =
  mod_id :: string
  mod_name :: string
  mod_target :: ModuleTarget
  mod_description :: string
  mod_dependencies :: "string list"
  mod_nodes :: "BlueprintNode list"
  mod_commands :: "CommandBinding list"

datatype PluginType = Code | Blueprint | Hybrid

fun pluginType_text :: "PluginType \<Rightarrow> string" where
  "pluginType_text Code = ''Code''"
| "pluginType_text Blueprint = ''Blueprint''"
| "pluginType_text Hybrid = ''Hybrid''"

record AddonMeta =
  meta_title :: string
  meta_identifier :: string
  meta_author :: string
  meta_version :: string
  meta_minEngineVersion :: string
  meta_pluginType :: PluginType
  meta_description :: string

record AddonState =
  meta :: AddonMeta
  modules :: "AddonModule list"
  selectedModuleId :: "string option"
  selectedNodeId :: "string option"

subsection \<open>Patches\<close>

text \<open>
  \<open>Partial<T>\<close> makes every field of \<open>T\<close> optional, the \<open>id\<close> and the nested lists
  included. A patch is a record of options: \<open>None\<close> is a key the patch does not have.
  The spread \<open>{ ...x, ...patch }\<close> copies \<open>x\<close> and then overwrites each key the patch
  has.
\<close>

record ModulePatch =
  mp_id :: "string option"
  mp_name :: "string option"
  mp_target :: "ModuleTarget option"
  mp_description :: "string option"
  mp_dependencies :: "string list option"
  mp_nodes :: "BlueprintNode list option"
  mp_commands :: "CommandBinding list option"

record NodePatch =
  np_id :: "string option"
  np_title :: "string option"
  np_category :: "string option"
  np_description :: "string option"
  np_inputs :: "BlueprintParameter list option"
  np_outputs :: "BlueprintParameter list option"
  np_body :: "string option"

record ParameterPatch =
  pp_id :: "string option"
  pp_name :: "string option"
  pp_kind :: "ParameterKind option"
  pp_defaultValue :: "string option option"
  pp_description :: "string option option"
  pp_isArray :: "bool option option"

record CommandPatch =
  cp_id :: "string option"
  cp_name :: "string option"
  cp_context :: "string option"
  cp_hotkey :: "string option"
  cp_description :: "string option"
  cp_script :: "string option"

definition overwrite :: "'a \<Rightarrow> 'a option \<Rightarrow> 'a" where
  "overwrite old new = (case new of None \<Rightarrow> old | Some v \<Rightarrow> v)"

definition patch_module :: "AddonModule \<Rightarrow> ModulePatch \<Rightarrow> AddonModule" where
  "patch_module m p =
     \<lparr> mod_id = overwrite (mod_id m) (mp_id p),
       mod_name = overwrite (mod_name m) (mp_name p),
       mod_target = overwrite (mod_target m) (mp_target p),
       mod_description = overwrite (mod_description m) (mp_description p),
       mod_dependencies = overwrite (mod_dependencies m) (mp_dependencies p),
       mod_nodes = overwrite (mod_nodes m) (mp_nodes p),
       mod_commands = overwrite (mod_commands m) (mp_commands p) \<rparr>"

definition patch_node :: "BlueprintNode \<Rightarrow> NodePatch \<Rightarrow> BlueprintNode" where
  "patch_node n p =
     \<lparr> node_id = overwrite (node_id n) (np_id p),
       node_title = overwrite (node_title n) (np_title p),
       node_category = overwrite (node_category n) (np_category p),
       node_description = overwrite (node_description n) (np_description p),
       node_inputs = overwrite (node_inputs n) (np_inputs p),
       node_outputs = overwrite (node_outputs n) (np_outputs p),
       node_body = overwrite (node_body n) (np_body p) \<rparr>"

definition patch_parameter :: "BlueprintParameter \<Rightarrow> ParameterPatch \<Rightarrow> BlueprintParameter" where
  "patch_parameter x p =
     \<lparr> param_id = overwrite (param_id x) (pp_id p),
       param_name = overwrite (param_name x) (pp_name p),
       param_kind = overwrite (param_kind x) (pp_kind p),
       param_defaultValue = overwrite (param_defaultValue x) (pp_defaultValue p),
       param_description = overwrite (param_description x) (pp_description p),
       param_isArray = overwrite (param_isArray x) (pp_isArray p) \<rparr>"

definition patch_command :: "CommandBinding \<Rightarrow> CommandPatch \<Rightarrow> CommandBinding" where
  "patch_command c p =
     \<lparr> command_id = overwrite (command_id c) (cp_id p),
       command_name = overwrite (command_name c) (cp_name p),
       command_context = overwrite (command_context c) (cp_context p),
       command_hotkey = overwrite (command_hotkey c) (cp_hotkey p),
       command_description = overwrite (command_description c) (cp_description p),
       command_script = overwrite (command_script c) (cp_script p) \<rparr>"

text \<open>\<open>updateMeta(key, value)\<close>: the key chooses the field, and fixes the value's type.\<close>

datatype MetaUpdate =
    SetTitle string
  | SetIdentifier string
  | SetAuthor string
  | SetVersion string
  | SetMinEngineVersion string
  | SetPluginType PluginType
  | SetDescription string

datatype Placement = Inputs | Outputs

section \<open>Identifier generator\<close>

text \<open>
  \<open>crypto.randomUUID()\<close> is the only effect of the store besides its own state. The
  model makes it explicit: a \<open>uuid_source\<close> gives the string that the \<open>k\<close>-th call of
  the process returns, and every operation that calls the generator takes the number of
  calls made so far and returns the number of calls made after it. Nothing is assumed
  about the source here; that it never repeats a value is a hypothesis of the theorems
  that need it.
\<close>

type_synonym uuid_source = "nat \<Rightarrow> string"

text \<open>
  \<open>xs.map(f)\<close> where the callback may call the generator: the calls happen in list
  order, so the counter is threaded from left to right.
\<close>

fun map_calls :: "(nat \<Rightarrow> 'a \<Rightarrow> 'b \<times> nat) \<Rightarrow> nat \<Rightarrow> 'a list \<Rightarrow> 'b list \<times> nat" where
  "map_calls f k [] = ([], k)"
| "map_calls f k (x # xs) =
     (let (y, k1) = f k x; (ys, k2) = map_calls f k1 xs in (y # ys, k2))"

section \<open>Store (src/lib/store.ts)\<close>

definition NL :: string where
  "NL = [CHR 0x0A]"

definition createParameter :: "uuid_source \<Rightarrow> nat \<Rightarrow> string \<Rightarrow> BlueprintParameter \<times> nat" where
  "createParameter uuid k name =
     (\<lparr> param_id = uuid k, param_name = name, param_kind = KString,
        param_defaultValue = None, param_description = None, param_isArray = None \<rparr>,
      Suc k)"

definition createNode :: "uuid_source \<Rightarrow> nat \<Rightarrow> BlueprintNode \<times> nat" where
  "createNode uuid k =
     (let (ctx, k1) = createParameter uuid (Suc k) ''Context'';
          (res, k2) = createParameter uuid k1 ''Result''
      in (\<lparr> node_id = uuid k,
            node_title = ''Execute Task'',
            node_category = ''Utilities'',
            node_description = ''Runs a custom task in the editor or runtime.'',
            node_inputs = [ctx],
            node_outputs = [res],
            node_body =
              ''// Describe the node behaviour here. This will be exported as a comment in the generated C++ scaffold.''
              @ NL @ ''return Result;'' \<rparr>,
          k2))"

definition createModule :: "uuid_source \<Rightarrow> nat \<Rightarrow> AddonModule \<times> nat" where
  \<open>createModule uuid k =
     (let (node, k1) = createNode uuid (Suc k)
      in (\<lparr> mod_id = uuid k,
            mod_name = ''CoreModule'',
            mod_target = EditorAndRuntime,
            mod_description = ''Primary module that ships with the add-on.'',
            mod_dependencies = [''Core'', ''Engine'', ''UnrealEd''],
            mod_nodes = [node],
            mod_commands =
              [\<lparr> command_id = uuid k1,
                 command_name = ''OpenPalette'',
                 command_context = ''LevelEditor'',
                 command_hotkey = ''Ctrl+Alt+P'',
                 command_description = ''Opens the add-on palette.'',
                 command_script =
                   ''UEditorUtilitySubsystem* UtilitySubsystem = GEditor->GetEditorSubsystem<UEditorUtilitySubsystem>();''
                   @ NL @
                   ''UtilitySubsystem->ExecuteUtility(FName("BP_OpenPaletteUtility"));'' \<rparr>] \<rparr>,
          Suc k1))\<close>

text \<open>
  \<open>defaultState\<close> is a constant of the module: \<open>createModule()\<close> runs once, when the
  program starts, with the first five values of the generator.
\<close>

definition defaultState :: "uuid_source \<Rightarrow> AddonState" where
  "defaultState uuid =
     \<lparr> meta =
         \<lparr> meta_title = ''AddOn Architect'',
           meta_identifier = ''AddonArchitect'',
           meta_author = ''StudioX'',
           meta_version = ''1.0.0'',
           meta_minEngineVersion = ''5.3'',
           meta_pluginType = Hybrid,
           meta_description =
             ''Design a hybrid Blueprint/C++ add-on with modular nodes, editor commands, and export utilities.'' \<rparr>,
       modules = [fst (createModule uuid 0)],
       selectedModuleId = None,
       selectedNodeId = None \<rparr>"

definition startup_calls :: "uuid_source \<Rightarrow> nat" where
  "startup_calls uuid = snd (createModule uuid 0)"

subsection \<open>Lookups\<close>

text \<open>\<open>modules.find(mod => mod.id === id)\<close>: the first module with the id.\<close>

definition find_module :: "string \<Rightarrow> AddonModule list \<Rightarrow> AddonModule option" where
  "find_module i ms = List.find (\<lambda>md. mod_id md = i) ms"

text \<open>\<open>m?.nodes[0]?.id ?? null\<close>\<close>

definition first_node_id :: "AddonModule option \<Rightarrow> string option" where
  "first_node_id mo =
     (case mo of
        None \<Rightarrow> None
      | Some m \<Rightarrow> (case mod_nodes m of [] \<Rightarrow> None | n # _ \<Rightarrow> Some (node_id n)))"

text \<open>A string is truthy unless it is empty.\<close>

definition truthy :: "string \<Rightarrow> bool" where
  "truthy x = (x \<noteq> [])"

fun get_placement :: "Placement \<Rightarrow> BlueprintNode \<Rightarrow> BlueprintParameter list" where
  "get_placement Inputs n = node_inputs n"
| "get_placement Outputs n = node_outputs n"

fun set_placement :: "Placement \<Rightarrow> BlueprintParameter list \<Rightarrow> BlueprintNode \<Rightarrow> BlueprintNode" where
  "set_placement Inputs ps n = n\<lparr>node_inputs := ps\<rparr>"
| "set_placement Outputs ps n = n\<lparr>node_outputs := ps\<rparr>"

subsection \<open>Operations\<close>

text \<open>
  \<open>set(f)\<close> merges the object \<open>f(state)\<close> into the state: the fields it names are
  replaced, the others are kept.
\<close>

fun updateMeta :: "MetaUpdate \<Rightarrow> AddonState \<Rightarrow> AddonState" where
  "updateMeta (SetTitle v) s = s\<lparr>meta := (meta s)\<lparr>meta_title := v\<rparr>\<rparr>"
| "updateMeta (SetIdentifier v) s = s\<lparr>meta := (meta s)\<lparr>meta_identifier := v\<rparr>\<rparr>"
| "updateMeta (SetAuthor v) s = s\<lparr>meta := (meta s)\<lparr>meta_author := v\<rparr>\<rparr>"
| "updateMeta (SetVersion v) s = s\<lparr>meta := (meta s)\<lparr>meta_version := v\<rparr>\<rparr>"
| "updateMeta (SetMinEngineVersion v) s = s\<lparr>meta := (meta s)\<lparr>meta_minEngineVersion := v\<rparr>\<rparr>"
| "updateMeta (SetPluginType v) s = s\<lparr>meta := (meta s)\<lparr>meta_pluginType := v\<rparr>\<rparr>"
| "updateMeta (SetDescription v) s = s\<lparr>meta := (meta s)\<lparr>meta_description := v\<rparr>\<rparr>"

definition selectModule :: "string option \<Rightarrow> AddonState \<Rightarrow> AddonState" where
  "selectModule i s =
     s\<lparr> selectedModuleId := i,
        selectedNodeId :=
          (case i of
             None \<Rightarrow> None
           | Some x \<Rightarrow> if truthy x then first_node_id (find_module x (modules s)) else None) \<rparr>"

definition selectNode :: "string option \<Rightarrow> AddonState \<Rightarrow> AddonState" where
  "selectNode i s = s\<lparr>selectedNodeId := i\<rparr>"

definition addModule :: "uuid_source \<Rightarrow> nat \<Rightarrow> AddonState \<Rightarrow> AddonState \<times> nat" where
  "addModule uuid k s =
     (let (newModule, k1) = createModule uuid k
      in (s\<lparr> modules := modules s @ [newModule],
             selectedModuleId := Some (mod_id newModule),
             selectedNodeId := first_node_id (Some newModule) \<rparr>,
          k1))"

definition clone_parameter :: "uuid_source \<Rightarrow> nat \<Rightarrow> BlueprintParameter \<Rightarrow> BlueprintParameter \<times> nat" where
  "clone_parameter uuid k p = (p\<lparr>param_id := uuid k\<rparr>, Suc k)"

definition clone_node :: "uuid_source \<Rightarrow> nat \<Rightarrow> BlueprintNode \<Rightarrow> BlueprintNode \<times> nat" where
  "clone_node uuid k n =
     (let (ins, k1) = map_calls (clone_parameter uuid) (Suc k) (node_inputs n);
          (outs, k2) = map_calls (clone_parameter uuid) k1 (node_outputs n)
      in (n\<lparr>node_id := uuid k, node_inputs := ins, node_outputs := outs\<rparr>, k2))"

definition clone_command :: "uuid_source \<Rightarrow> nat \<Rightarrow> CommandBinding \<Rightarrow> CommandBinding \<times> nat" where
  "clone_command uuid k c = (c\<lparr>command_id := uuid k\<rparr>, Suc k)"

definition clone_module :: "uuid_source \<Rightarrow> nat \<Rightarrow> AddonModule \<Rightarrow> AddonModule \<times> nat" where
  "clone_module uuid k existing =
     (let (ns, k1) = map_calls (clone_node uuid) (Suc k) (mod_nodes existing);
          (cs, k2) = map_calls (clone_command uuid) k1 (mod_commands existing)
      in (existing\<lparr> mod_id := uuid k,
                    mod_name := mod_name existing @ ''Copy'',
                    mod_nodes := ns,
                    mod_commands := cs \<rparr>,
          k2))"

definition cloneModule :: "uuid_source \<Rightarrow> nat \<Rightarrow> string \<Rightarrow> AddonState \<Rightarrow> AddonState \<times> nat" where
  "cloneModule uuid k i s =
     (case find_module i (modules s) of
        None \<Rightarrow> (s, k)
      | Some existing \<Rightarrow>
          (let (cloned, k1) = clone_module uuid k existing
           in (s\<lparr> modules := modules s @ [cloned],
                  selectedModuleId := Some (mod_id cloned),
                  selectedNodeId := first_node_id (Some cloned) \<rparr>,
               k1)))"

definition updateModule :: "string \<Rightarrow> ModulePatch \<Rightarrow> AddonState \<Rightarrow> AddonState" where
  "updateModule i patch s =
     s\<lparr>modules := map (\<lambda>md. if mod_id md = i then patch_module md patch else md) (modules s)\<rparr>"

definition removeModule :: "string \<Rightarrow> AddonState \<Rightarrow> AddonState" where
  "removeModule i s =
     (let ms = filter (\<lambda>md. mod_id md \<noteq> i) (modules s);
          nextSelected = (if ms = [] then None else Some (mod_id (last ms)))
      in s\<lparr> modules := ms,
            selectedModuleId := nextSelected,
            selectedNodeId :=
              (case nextSelected of
                 None \<Rightarrow> None
               | Some x \<Rightarrow>
                   if truthy x \<and> length ms \<noteq> 0
                   then first_node_id (find_module x ms) else None) \<rparr>)"

definition addNode :: "uuid_source \<Rightarrow> nat \<Rightarrow> string \<Rightarrow> AddonState \<Rightarrow> AddonState \<times> nat" where
  "addNode uuid k moduleId s =
     (let (node, k1) = createNode uuid k
      in (s\<lparr> modules :=
               map (\<lambda>md. if mod_id md = moduleId
                          then md\<lparr>mod_nodes := mod_nodes md @ [node]\<rparr> else md)
                 (modules s),
             selectedModuleId := Some moduleId,
             selectedNodeId := Some (node_id node) \<rparr>,
          k1))"

definition updateNode :: "string \<Rightarrow> string \<Rightarrow> NodePatch \<Rightarrow> AddonState \<Rightarrow> AddonState" where
  "updateNode moduleId nodeId patch s =
     s\<lparr>modules :=
         map (\<lambda>md. if mod_id md = moduleId
                    then md\<lparr>mod_nodes :=
                           map (\<lambda>node. if node_id node = nodeId then patch_node node patch else node)
                             (mod_nodes md)\<rparr>
                    else md)
           (modules s)\<rparr>"

definition removeNode :: "string \<Rightarrow> string \<Rightarrow> AddonState \<Rightarrow> AddonState" where
  "removeNode moduleId nodeId s =
     (let ms = map (\<lambda>md. if mod_id md = moduleId
                          then md\<lparr>mod_nodes := filter (\<lambda>node. node_id node \<noteq> nodeId) (mod_nodes md)\<rparr>
                          else md)
                 (modules s);
          activeModule = find_module moduleId ms
      in s\<lparr> modules := ms,
            selectedModuleId := Some moduleId,
            selectedNodeId := first_node_id activeModule \<rparr>)"

definition addParameter_node ::
  "uuid_source \<Rightarrow> string \<Rightarrow> Placement \<Rightarrow> nat \<Rightarrow> BlueprintNode \<Rightarrow> BlueprintNode \<times> nat" where
  "addParameter_node uuid nodeId placement k node =
     (if node_id node = nodeId
      then (let (p, k1) = createParameter uuid k
                            (if placement = Inputs then ''InputParam'' else ''OutputParam'')
            in (set_placement placement (get_placement placement node @ [p]) node, k1))
      else (node, k))"

definition addParameter_module ::
  "uuid_source \<Rightarrow> string \<Rightarrow> string \<Rightarrow> Placement \<Rightarrow> nat \<Rightarrow> AddonModule \<Rightarrow> AddonModule \<times> nat" where
  "addParameter_module uuid moduleId nodeId placement k md =
     (if mod_id md = moduleId
      then (let (ns, k1) = map_calls (addParameter_node uuid nodeId placement) k (mod_nodes md)
            in (md\<lparr>mod_nodes := ns\<rparr>, k1))
      else (md, k))"

definition addParameter ::
  "uuid_source \<Rightarrow> nat \<Rightarrow> string \<Rightarrow> string \<Rightarrow> Placement \<Rightarrow> AddonState \<Rightarrow> AddonState \<times> nat" where
  "addParameter uuid k moduleId nodeId placement s =
     (let (ms, k1) = map_calls (addParameter_module uuid moduleId nodeId placement) k (modules s)
      in (s\<lparr>modules := ms\<rparr>, k1))"

definition updateParameter ::
  "string \<Rightarrow> string \<Rightarrow> Placement \<Rightarrow> string \<Rightarrow> ParameterPatch \<Rightarrow> AddonState \<Rightarrow> AddonState" where
  "updateParameter moduleId nodeId placement paramId patch s =
     s\<lparr>modules :=
         map (\<lambda>md. if mod_id md = moduleId
                    then md\<lparr>mod_nodes :=
                           map (\<lambda>node. if node_id node = nodeId
                                        then set_placement placement
                                               (map (\<lambda>param. if param_id param = paramId
                                                              then patch_parameter param patch else param)
                                                  (get_placement placement node))
                                               node
                                        else node)
                             (mod_nodes md)\<rparr>
                    else md)
           (modules s)\<rparr>"

definition removeParameter ::
  "string \<Rightarrow> string \<Rightarrow> Placement \<Rightarrow> string \<Rightarrow> AddonState \<Rightarrow> AddonState" where
  "removeParameter moduleId nodeId placement paramId s =
     s\<lparr>modules :=
         map (\<lambda>md. if mod_id md = moduleId
                    then md\<lparr>mod_nodes :=
                           map (\<lambda>node. if node_id node = nodeId
                                        then set_placement placement
                                               (filter (\<lambda>param. param_id param \<noteq> paramId)
                                                  (get_placement placement node))
                                               node
                                        else node)
                             (mod_nodes md)\<rparr>
                    else md)
           (modules s)\<rparr>"

definition addCommand_module :: "uuid_source \<Rightarrow> string \<Rightarrow> nat \<Rightarrow> AddonModule \<Rightarrow> AddonModule \<times> nat" where
  "addCommand_module uuid moduleId k md =
     (if mod_id md = moduleId
      then (md\<lparr>mod_commands :=
                 mod_commands md @
                 [\<lparr> command_id = uuid k,
                    command_name = ''NewCommand'',
                    command_context = ''LevelEditor'',
                    command_hotkey = ''Ctrl+Shift+N'',
                    command_description = ''Executes a custom command.'',
                    command_script = ''// Script body'' \<rparr>]\<rparr>,
            Suc k)
      else (md, k))"

definition addCommand :: "uuid_source \<Rightarrow> nat \<Rightarrow> string \<Rightarrow> AddonState \<Rightarrow> AddonState \<times> nat" where
  "addCommand uuid k moduleId s =
     (let (ms, k1) = map_calls (addCommand_module uuid moduleId) k (modules s)
      in (s\<lparr>modules := ms\<rparr>, k1))"

definition updateCommand :: "string \<Rightarrow> string \<Rightarrow> CommandPatch \<Rightarrow> AddonState \<Rightarrow> AddonState" where
  "updateCommand moduleId commandId patch s =
     s\<lparr>modules :=
         map (\<lambda>md. if mod_id md = moduleId
                    then md\<lparr>mod_commands :=
                           map (\<lambda>command. if command_id command = commandId
                                           then patch_command command patch else command)
                             (mod_commands md)\<rparr>
                    else md)
           (modules s)\<rparr>"

definition removeCommand :: "string \<Rightarrow> string \<Rightarrow> AddonState \<Rightarrow> AddonState" where
  "removeCommand moduleId commandId s =
     s\<lparr>modules :=
         map (\<lambda>md. if mod_id md = moduleId
                    then md\<lparr>mod_commands :=
                           filter (\<lambda>command. command_id command \<noteq> commandId) (mod_commands md)\<rparr>
                    else md)
           (modules s)\<rparr>"

text \<open>\<open>reset\<close> merges a copy of the constant \<open>defaultState\<close> into the state.\<close>

definition reset :: "uuid_source \<Rightarrow> AddonState \<Rightarrow> AddonState" where
  "reset uuid s =
     s\<lparr> meta := meta (defaultState uuid),
        modules := modules (defaultState uuid),
        selectedModuleId := selectedModuleId (defaultState uuid),
        selectedNodeId := selectedNodeId (defaultState uuid) \<rparr>"

subsection \<open>The Mutation API as a transition system\<close>

text \<open>
  One constructor per operation of the store, with the operation's arguments. A store is
  the model together with the number of generator calls made so far; \<open>step\<close> performs one
  operation and \<open>run\<close> a sequence of them, from left to right.
\<close>

datatype Mutation =
    UpdateMeta MetaUpdate
  | SelectModule "string option"
  | SelectNode "string option"
  | AddModule
  | CloneModule string
  | UpdateModule string ModulePatch
  | RemoveModule string
  | AddNode string
  | UpdateNode string string NodePatch
  | RemoveNode string string
  | AddParameter string string Placement
  | UpdateParameter string string Placement string ParameterPatch
  | RemoveParameter string string Placement string
  | AddCommand string
  | UpdateCommand string string CommandPatch
  | RemoveCommand string string
  | Reset

type_synonym Store = "AddonState \<times> nat"

fun step :: "uuid_source \<Rightarrow> Mutation \<Rightarrow> Store \<Rightarrow> Store" where
  "step uuid (UpdateMeta u) (s, k) = (updateMeta u s, k)"
| "step uuid (SelectModule i) (s, k) = (selectModule i s, k)"
| "step uuid (SelectNode i) (s, k) = (selectNode i s, k)"
| "step uuid AddModule (s, k) = addModule uuid k s"
| "step uuid (CloneModule i) (s, k) = cloneModule uuid k i s"
| "step uuid (UpdateModule i p) (s, k) = (updateModule i p s, k)"
| "step uuid (RemoveModule i) (s, k) = (removeModule i s, k)"
| "step uuid (AddNode mi) (s, k) = addNode uuid k mi s"
| "step uuid (UpdateNode mi ni p) (s, k) = (updateNode mi ni p s, k)"
| "step uuid (RemoveNode mi ni) (s, k) = (removeNode mi ni s, k)"
| "step uuid (AddParameter mi ni pl) (s, k) = addParameter uuid k mi ni pl s"
| "step uuid (UpdateParameter mi ni pl pi p) (s, k) = (updateParameter mi ni pl pi p s, k)"
| "step uuid (RemoveParameter mi ni pl pi) (s, k) = (removeParameter mi ni pl pi s, k)"
| "step uuid (AddCommand mi) (s, k) = addCommand uuid k mi s"
| "step uuid (UpdateCommand mi ci p) (s, k) = (updateCommand mi ci p s, k)"
| "step uuid (RemoveCommand mi ci) (s, k) = (removeCommand mi ci s, k)"
| "step uuid Reset (s, k) = (reset uuid s, k)"

fun run :: "uuid_source \<Rightarrow> Mutation list \<Rightarrow> Store \<Rightarrow> Store" where
  "run uuid [] w = w"
| "run uuid (x # xs) w = run uuid xs (step uuid x w)"

definition initial :: "uuid_source \<Rightarrow> Store" where
  "initial uuid = (defaultState uuid, startup_calls uuid)"

text \<open>
  A sequence of operations is admissible for a condition \<open>P\<close> when every operation
  satisfies \<open>P\<close> in the model it is applied to.
\<close>

fun admissible ::
  "(AddonState \<Rightarrow> Mutation \<Rightarrow> bool) \<Rightarrow> uuid_source \<Rightarrow> Mutation list \<Rightarrow> Store \<Rightarrow> bool" where
  "admissible P uuid [] w = True"
| "admissible P uuid (x # xs) w = (P (fst w) x \<and> admissible P uuid xs (step uuid x w))"

text \<open>A generator that never repeats itself, for concrete runs of the store.\<close>

definition unary_uuid :: uuid_source where
  "unary_uuid n = ''id-'' @ replicate n (CHR ''i'')"

section \<open>Exporters (src/lib/exporters.ts)\<close>

subsection \<open>String operations of the language\<close>

text \<open>\<open>xs.join(sep)\<close>\<close>

fun join :: "string \<Rightarrow> string list \<Rightarrow> string" where
  "join sep [] = []"
| "join sep [x] = x"
| "join sep (x # y # ys) = x @ sep @ join sep (y # ys)"

text \<open>
  \<open>s.split(c)\<close> for a separator of one character: the pieces between the separators,
  one more than there are separators; the empty string gives one empty piece.
\<close>

fun split_on :: "char \<Rightarrow> string \<Rightarrow> string list" where
  "split_on c [] = [[]]"
| "split_on c (x # xs) =
     (if x = c then [] # split_on c xs
      else (case split_on c xs of [] \<Rightarrow> [[x]] | t # ts \<Rightarrow> (x # t) # ts))"

text \<open>
  \<open>s.trim()\<close> removes white space and line terminators from both ends. Of the
  characters the language counts as such, these are the ones a \<open>char\<close> can hold.
\<close>

definition is_white_space :: "char \<Rightarrow> bool" where
  "is_white_space c =
     (c \<in> set [CHR 0x09, CHR 0x0A, CHR 0x0B, CHR 0x0C, CHR 0x0D, CHR 0x20, CHR 0xA0])"

definition trim :: "string \<Rightarrow> string" where
  "trim s = rev (dropWhile is_white_space (rev (dropWhile is_white_space s)))"

text \<open>
  \<open>s.replace(pat, rep)\<close> with a string pattern replaces the first occurrence of \<open>pat\<close>,
  if there is one. (The replacement is taken literally when it has no dollar sign, as here.)
\<close>

fun replace_first :: "string \<Rightarrow> string \<Rightarrow> string \<Rightarrow> string" where
  "replace_first pat rep [] = (if pat = [] then rep else [])"
| "replace_first pat rep (x # xs) =
     (if take (length pat) (x # xs) = pat then rep @ drop (length pat) (x # xs)
      else x # replace_first pat rep xs)"

text \<open>\<open>a || b\<close> on strings\<close>

definition or_else :: "string \<Rightarrow> string \<Rightarrow> string" where
  "or_else a b = (if truthy a then a else b)"

subsection \<open>\<open>JSON.stringify\<close>\<close>

text \<open>
  The values the descriptor is built from: numbers (integers here), strings, arrays, and
  objects as lists of properties in insertion order.
\<close>

datatype json =
    JNumber int
  | JString string
  | JArray "json list"
  | JObject "(string \<times> json) list"

fun decimal :: "nat \<Rightarrow> string" where
  "decimal n =
     (if n < 10 then [char_of (48 + n)] else decimal (n div 10) @ [char_of (48 + n mod 10)])"

declare decimal.simps [simp del]

definition number_text :: "int \<Rightarrow> string" where
  "number_text i = (if i < 0 then CHR ''-'' # decimal (nat (- i)) else decimal (nat i))"

definition hex_digit :: "nat \<Rightarrow> char" where
  "hex_digit n = (if n < 10 then char_of (48 + n) else char_of (87 + n))"

text \<open>
  \<open>QuoteJSONString\<close>: the quotation mark, the backslash and the control characters are
  escaped; every other character stands for itself.
\<close>

definition quote_char :: "char \<Rightarrow> string" where
  "quote_char c =
     (if c = CHR 0x08 then [CHR 0x5C, CHR ''b'']
      else if c = CHR 0x09 then [CHR 0x5C, CHR ''t'']
      else if c = CHR 0x0A then [CHR 0x5C, CHR ''n'']
      else if c = CHR 0x0C then [CHR 0x5C, CHR ''f'']
      else if c = CHR 0x0D then [CHR 0x5C, CHR ''r'']
      else if c = CHR 0x22 then [CHR 0x5C, CHR 0x22]
      else if c = CHR 0x5C then [CHR 0x5C, CHR 0x5C]
      else if (of_char c :: nat) < 32
        then [CHR 0x5C, CHR ''u'', CHR ''0'', CHR ''0'',
              hex_digit (of_char c div 16), hex_digit (of_char c mod 16)]
      else [c])"

definition QuoteJSONString :: "string \<Rightarrow> string" where
  "QuoteJSONString s = CHR 0x22 # concat (map quote_char s) @ [CHR 0x22]"

text \<open>
  \<open>SerializeJSONProperty\<close> with its two pieces of state, the gap and the current
  indentation. An empty array or object is written without a line break; otherwise, with
  a non-empty gap, every element goes on a line of its own, indented one gap further.
\<close>

fun SerializeJSONProperty :: "string \<Rightarrow> string \<Rightarrow> json \<Rightarrow> string" where
  "SerializeJSONProperty gap indent (JNumber i) = number_text i"
| "SerializeJSONProperty gap indent (JString s) = QuoteJSONString s"
| "SerializeJSONProperty gap indent (JArray xs) =
     (let partial = map (SerializeJSONProperty gap (indent @ gap)) xs
      in if partial = [] then ''[]''
         else if gap = [] then ''['' @ join '','' partial @ '']''
         else ''['' @ NL @ (indent @ gap) @ join ('','' @ NL @ indent @ gap) partial
              @ NL @ indent @ '']'')"
| "SerializeJSONProperty gap indent (JObject kvs) =
     (let partial = map (\<lambda>kv. QuoteJSONString (fst kv) @ '':'' @ (if gap = [] then [] else '' '')
                                @ SerializeJSONProperty gap (indent @ gap) (snd kv)) kvs
      in if partial = [] then ''{}''
         else if gap = [] then ''{'' @ join '','' partial @ ''}''
         else ''{'' @ NL @ (indent @ gap) @ join ('','' @ NL @ indent @ gap) partial
              @ NL @ indent @ ''}'')"

text \<open>
  \<open>JSON.stringify(value, null, space)\<close> with a number for \<open>space\<close>: a gap of that many
  spaces, at most ten.
\<close>

definition JSON_stringify :: "json \<Rightarrow> nat \<Rightarrow> string" where
  "JSON_stringify v space = SerializeJSONProperty (replicate (min 10 space) (CHR '' '')) [] v"

subsection \<open>Descriptor\<close>

definition createUPluginDescriptor :: "AddonState \<Rightarrow> string" where
  "createUPluginDescriptor state =
     (let mods = map (\<lambda>md. JObject
                   [(''Name'', JString (mod_name md)),
                    (''Type'', JString (target_text (mod_target md))),
                    (''LoadingPhase'', JString ''Default''),
                    (''AdditionalDependencies'', JArray (map JString (mod_dependencies md)))])
                 (modules state)
      in JSON_stringify
           (JObject
             [(''FileVersion'', JNumber 3),
              (''Version'', JNumber 1),
              (''VersionName'', JString (meta_version (meta state))),
              (''FriendlyName'', JString (meta_title (meta state))),
              (''EngineVersion'', JString (meta_minEngineVersion (meta state))),
              (''Description'', JString (meta_description (meta state))),
              (''Category'', JString ''Editor''),
              (''CreatedBy'', JString (meta_author (meta state))),
              (''CreatedByURL'', JString ''https://addon-architect.vercel.app''),
              (''Modules'', JArray mods)])
           2)"

subsection \<open>Scaffold\<close>

text \<open>
  The two local constants of \<open>createBlueprintNodeSnippet\<close>. \<open>param.isArray ? ... : ...\<close>
  takes the first branch only for a field that is present and true.
\<close>

definition snippet_inputs :: "BlueprintNode \<Rightarrow> string" where
  "snippet_inputs node =
     join NL (map (\<lambda>param. ''  '' @ kind_text (param_kind param) @ '' '' @ param_name param @ '';'')
                (node_inputs node))"

definition snippet_outputs :: "BlueprintNode \<Rightarrow> string" where
  "snippet_outputs node =
     join NL (map (\<lambda>param. ''  '' @ kind_text (param_kind param) @ '' '' @ param_name param
                            @ (if param_isArray param = Some True then ''[]'' else []) @ '';'')
                (node_outputs node))"

definition createBlueprintNodeSnippet :: "BlueprintNode \<Rightarrow> string" where
  \<open>createBlueprintNodeSnippet node =
     ''UFUNCTION(BlueprintCallable, Category = "'' @ node_category node @ ''")'' @ NL @
     ''static void '' @ node_title node @ ''('' @ NL @
     join ('','' @ NL)
       (map (\<lambda>param. ''    ''
                @ (if param_kind param = KObject then ''UObject*''
                   else ''const '' @ kind_text (param_kind param))
                @ '' '' @ param_name param)
          (node_inputs node)) @ NL @
     '');'' @ NL @ NL @
     ''// Description: '' @ node_description node @ NL @
     ''// Body Example:'' @ NL @
     ''/*'' @ NL @
     node_body node @ NL @
     ''*/'' @ NL @
     ''// Outputs:'' @ NL @
     ''/*'' @ NL @
     or_else (snippet_outputs node) ''// void'' @ NL @
     ''*/'' @ NL @
     ''// Inputs:'' @ NL @
     ''/*'' @ NL @
     or_else (snippet_inputs node) ''// none'' @ NL @
     ''*/''\<close>

text \<open>The expression inside \<open>FInputChord(...)\<close>, before the join.\<close>

definition hotkey_tokens :: "string \<Rightarrow> string list" where
  "hotkey_tokens hotkey =
     map (\<lambda>token. ''EKeys::'' @ replace_first ''Ctrl'' ''LeftControl'' (trim token))
       (split_on (CHR ''+'') hotkey)"

definition createCommandSnippet :: "CommandBinding \<Rightarrow> string" where
  \<open>createCommandSnippet command =
     ''FUICommandInfoDecl('' @ NL @
     ''    CommandList,'' @ NL @
     ''    "'' @ command_context command @ ''",'' @ NL @
     ''    "'' @ command_name command @ ''",'' @ NL @
     ''    LOCTEXT("'' @ command_name command @ ''", "'' @ command_description command @ ''"),'' @ NL @
     ''    FInputChord('' @ join '', '' (hotkey_tokens (command_hotkey command)) @ ''),'' @ NL @
     ''    FSlateIcon()'' @ NL @
     '').ExecuteAction(FExecuteAction::CreateLambda([]()'' @ NL @
     ''{'' @ NL @
     ''    '' @ command_script command @ NL @
     ''}));''\<close>

text \<open>\<open>text.split("\n").map(line => `    ${line}`).join("\n")\<close>\<close>

definition indent_lines :: "string \<Rightarrow> string" where
  "indent_lines text = join NL (map (\<lambda>line. ''    '' @ line) (split_on (CHR 0x0A) text))"

definition headerNodes :: "AddonState \<Rightarrow> string" where
  "headerNodes state =
     join (NL @ NL)
       (filter truthy
          (map (\<lambda>md. join (NL @ NL)
                        (map (\<lambda>snippet. ''// Module: '' @ mod_name md @ NL @ snippet)
                           (map createBlueprintNodeSnippet (mod_nodes md))))
             (modules state)))"

definition commandSnippets :: "AddonState \<Rightarrow> string" where
  "commandSnippets state =
     join (NL @ NL)
       (map (\<lambda>command. ''// Command: '' @ command_name command @ NL @ createCommandSnippet command)
          (concat (map mod_commands (modules state))))"

definition createCppScaffold :: "AddonState \<Rightarrow> string" where
  \<open>createCppScaffold state =
     ''#pragma once'' @ NL @
     NL @
     ''#include "CoreMinimal.h"'' @ NL @
     ''#include "Kismet/BlueprintFunctionLibrary.h"'' @ NL @
     NL @
     ''class '' @ meta_identifier (meta state) @ ''Library : public UBlueprintFunctionLibrary'' @ NL @
     ''{'' @ NL @
     ''    GENERATED_BODY()'' @ NL @
     NL @
     ''public:'' @ NL @
     indent_lines (headerNodes state) @ NL @
     ''};'' @ NL @
     NL @
     ''// Editor Command Bindings'' @ NL @
     ''void Register'' @ meta_identifier (meta state)
       @ ''Commands(const TSharedRef<FUICommandList>& CommandList)'' @ NL @
     ''{'' @ NL @
     indent_lines (commandSnippets state) @ NL @
     ''}''\<close>

section \<open>Specification vocabulary\<close>

subsection \<open>The ids of a model\<close>

definition node_ids :: "BlueprintNode \<Rightarrow> string list" where
  "node_ids n = node_id n # map param_id (node_inputs n) @ map param_id (node_outputs n)"

definition module_ids :: "AddonModule \<Rightarrow> string list" where
  "module_ids m =
     mod_id m # concat (map node_ids (mod_nodes m)) @ map command_id (mod_commands m)"

definition state_ids :: "AddonState \<Rightarrow> string list" where
  "state_ids s = concat (map module_ids (modules s))"

text \<open>Uniqueness of ids within each containing collection.\<close>

definition node_ids_unique :: "BlueprintNode \<Rightarrow> bool" where
  "node_ids_unique n =
     (distinct (map param_id (node_inputs n)) \<and> distinct (map param_id (node_outputs n)))"

definition module_ids_unique :: "AddonModule \<Rightarrow> bool" where
  "module_ids_unique m =
     (distinct (map node_id (mod_nodes m)) \<and> distinct (map command_id (mod_commands m))
      \<and> list_all node_ids_unique (mod_nodes m))"

definition ids_unique :: "AddonState \<Rightarrow> bool" where
  "ids_unique s =
     (distinct (map mod_id (modules s)) \<and> list_all module_ids_unique (modules s))"

text \<open>
  The selection invariant: the selected node, if any, is a node of the module that the
  store finds under the selected module id.
\<close>

definition selection_consistent :: "AddonState \<Rightarrow> bool" where
  "selection_consistent s =
     (case selectedNodeId s of
        None \<Rightarrow> True
      | Some n \<Rightarrow>
          (case selectedModuleId s of
             None \<Rightarrow> False
           | Some i \<Rightarrow>
               (case find_module i (modules s) of
                  None \<Rightarrow> False
                | Some m \<Rightarrow> n \<in> set (map node_id (mod_nodes m)))))"

subsection \<open>Value equality up to ids\<close>

definition erase_parameter :: "BlueprintParameter \<Rightarrow> BlueprintParameter" where
  "erase_parameter p = p\<lparr>param_id := []\<rparr>"

definition erase_node :: "BlueprintNode \<Rightarrow> BlueprintNode" where
  "erase_node n =
     n\<lparr> node_id := [],
        node_inputs := map erase_parameter (node_inputs n),
        node_outputs := map erase_parameter (node_outputs n) \<rparr>"

definition erase_command :: "CommandBinding \<Rightarrow> CommandBinding" where
  "erase_command c = c\<lparr>command_id := []\<rparr>"

definition erase_module :: "AddonModule \<Rightarrow> AddonModule" where
  "erase_module m =
     m\<lparr> mod_id := [],
        mod_nodes := map erase_node (mod_nodes m),
        mod_commands := map erase_command (mod_commands m) \<rparr>"

definition erase_ids :: "AddonState \<Rightarrow> AddonState" where
  "erase_ids s = s\<lparr>modules := map erase_module (modules s)\<rparr>"

subsection \<open>Arguments that reference nothing\<close>

definition has_module :: "string \<Rightarrow> AddonState \<Rightarrow> bool" where
  "has_module mi s = list_ex (\<lambda>md. mod_id md = mi) (modules s)"

definition has_node :: "string \<Rightarrow> string \<Rightarrow> AddonState \<Rightarrow> bool" where
  "has_node mi ni s =
     list_ex (\<lambda>md. mod_id md = mi \<and> list_ex (\<lambda>n. node_id n = ni) (mod_nodes md)) (modules s)"

definition has_parameter :: "string \<Rightarrow> string \<Rightarrow> Placement \<Rightarrow> string \<Rightarrow> AddonState \<Rightarrow> bool" where
  "has_parameter mi ni pl qi s =
     list_ex (\<lambda>md. mod_id md = mi \<and>
                list_ex (\<lambda>n. node_id n = ni \<and> list_ex (\<lambda>q. param_id q = qi) (get_placement pl n))
                  (mod_nodes md))
       (modules s)"

definition has_command :: "string \<Rightarrow> string \<Rightarrow> AddonState \<Rightarrow> bool" where
  "has_command mi ci s =
     list_ex (\<lambda>md. mod_id md = mi \<and> list_ex (\<lambda>c. command_id c = ci) (mod_commands md)) (modules s)"

text \<open>
  \<open>dangling x s\<close>: the operation \<open>x\<close> carries an id, or a chain of ids, that leads to no
  entity of the model \<open>s\<close>. Operations without an id argument are never dangling.
\<close>

fun dangling :: "Mutation \<Rightarrow> AddonState \<Rightarrow> bool" where
  "dangling (UpdateMeta u) s = False"
| "dangling (SelectModule None) s = False"
| "dangling (SelectModule (Some i)) s = (\<not> has_module i s)"
| "dangling (SelectNode None) s = False"
| "dangling (SelectNode (Some i)) s = (\<not> list_ex (\<lambda>md. has_node (mod_id md) i s) (modules s))"
| "dangling AddModule s = False"
| "dangling (CloneModule i) s = (\<not> has_module i s)"
| "dangling (UpdateModule i p) s = (\<not> has_module i s)"
| "dangling (RemoveModule i) s = (\<not> has_module i s)"
| "dangling (AddNode mi) s = (\<not> has_module mi s)"
| "dangling (UpdateNode mi ni p) s = (\<not> has_node mi ni s)"
| "dangling (RemoveNode mi ni) s = (\<not> has_node mi ni s)"
| "dangling (AddParameter mi ni pl) s = (\<not> has_node mi ni s)"
| "dangling (UpdateParameter mi ni pl qi p) s = (\<not> has_parameter mi ni pl qi s)"
| "dangling (RemoveParameter mi ni pl qi) s = (\<not> has_parameter mi ni pl qi s)"
| "dangling (AddCommand mi) s = (\<not> has_module mi s)"
| "dangling (UpdateCommand mi ci p) s = (\<not> has_command mi ci s)"
| "dangling (RemoveCommand mi ci) s = (\<not> has_command mi ci s)"
| "dangling Reset s = False"

text \<open>
  The operations that assign the selection whether or not the store finds what their id
  argument names.
\<close>

fun assigns_selection :: "Mutation \<Rightarrow> bool" where
  "assigns_selection (SelectModule i) = True"
| "assigns_selection (SelectNode i) = True"
| "assigns_selection (RemoveModule i) = True"
| "assigns_selection (AddNode mi) = True"
| "assigns_selection (RemoveNode mi ni) = True"
| "assigns_selection x = False"

subsection \<open>Restricted use of the API\<close>

text \<open>
  \<open>keeps_ids x\<close>: an update patch of \<open>x\<close> sets no \<open>id\<close> and replaces no nested list of
  entities. Every other operation qualifies.
\<close>

fun keeps_ids :: "Mutation \<Rightarrow> bool" where
  "keeps_ids (UpdateModule i p) = (mp_id p = None \<and> mp_nodes p = None \<and> mp_commands p = None)"
| "keeps_ids (UpdateNode mi ni p) = (np_id p = None \<and> np_inputs p = None \<and> np_outputs p = None)"
| "keeps_ids (UpdateParameter mi ni pl qi p) = (pp_id p = None)"
| "keeps_ids (UpdateCommand mi ci p) = (cp_id p = None)"
| "keeps_ids x = True"

text \<open>
  \<open>selection_safe s x\<close>: \<open>selectNode\<close> is given null or a node of the selected module,
  \<open>addNode\<close> is given the id of a module of the model, and an update patch neither renames
  a module or a node nor replaces a module's list of nodes.
\<close>

fun selection_safe :: "AddonState \<Rightarrow> Mutation \<Rightarrow> bool" where
  "selection_safe s (SelectNode i) = selection_consistent (s\<lparr>selectedNodeId := i\<rparr>)"
| "selection_safe s (AddNode mi) = has_module mi s"
| "selection_safe s (UpdateModule i p) = (mp_id p = None \<and> mp_nodes p = None)"
| "selection_safe s (UpdateNode mi ni p) = (np_id p = None)"
| "selection_safe s x = True"

subsection \<open>Invariants of runs\<close>

text \<open>
  What the selection invariant depends on: for each module, its id and the ids of its
  nodes, in order.
\<close>

definition skeleton :: "AddonModule list \<Rightarrow> (string \<times> string list) list" where
  "skeleton ms = map (\<lambda>m. (mod_id m, map node_id (mod_nodes m))) ms"

text \<open>
  The invariant carried along a run: the selection is consistent, and every module id was
  returned by one of the generator calls made so far.
\<close>

definition selection_invariant :: "uuid_source \<Rightarrow> Store \<Rightarrow> bool" where
  "selection_invariant uuid w =
     (selection_consistent (fst w) \<and> set (map mod_id (modules (fst w))) \<subseteq> uuid ` {..<snd w}
      \<and> startup_calls uuid \<le> snd w)"

text \<open>
  For uniqueness of ids the invariant is carried entity by entity: a node, a module or
  the model has unique ids and every id in it was returned by one of the first \<open>j\<close> calls
  of the generator.
\<close>

definition node_good :: "uuid_source \<Rightarrow> nat \<Rightarrow> BlueprintNode \<Rightarrow> bool" where
  "node_good uuid j n = (node_ids_unique n \<and> set (node_ids n) \<subseteq> uuid ` {..<j})"

definition module_good :: "uuid_source \<Rightarrow> nat \<Rightarrow> AddonModule \<Rightarrow> bool" where
  "module_good uuid j m = (module_ids_unique m \<and> set (module_ids m) \<subseteq> uuid ` {..<j})"

definition id_invariant :: "uuid_source \<Rightarrow> Store \<Rightarrow> bool" where
  "id_invariant uuid w =
     (ids_unique (fst w) \<and> set (state_ids (fst w)) \<subseteq> uuid ` {..<snd w}
      \<and> startup_calls uuid \<le> snd w)"

subsection \<open>The text of the descriptor\<close>

text \<open>
  The descriptor as the specification lays it out, line by line: the text of a module's
  dependency list (at the third level of nesting), of one entry of \<open>Modules\<close> (at the
  second), and of the whole document. Every level is indented by two spaces more than the
  one around it; an empty array is \<open>[]\<close>.
\<close>

definition dependencies_layout :: "string list \<Rightarrow> string" where
  \<open>dependencies_layout deps =
     (if deps = [] then ''[]''
      else ''['' @ NL @
           ''        '' @ join ('','' @ NL @ ''        '') (map QuoteJSONString deps) @ NL @
           ''      ]'')\<close>

definition module_entry_layout :: "AddonModule \<Rightarrow> string" where
  \<open>module_entry_layout m =
     ''{'' @ NL @
     ''      "Name": '' @ QuoteJSONString (mod_name m) @ '','' @ NL @
     ''      "Type": "'' @ target_text (mod_target m) @ ''",'' @ NL @
     ''      "LoadingPhase": "Default",'' @ NL @
     ''      "AdditionalDependencies": '' @ dependencies_layout (mod_dependencies m) @ NL @
     ''    }''\<close>

definition descriptor_layout :: "AddonState \<Rightarrow> string" where
  \<open>descriptor_layout s =
     ''{'' @ NL @
     ''  "FileVersion": 3,'' @ NL @
     ''  "Version": 1,'' @ NL @
     ''  "VersionName": '' @ QuoteJSONString (meta_version (meta s)) @ '','' @ NL @
     ''  "FriendlyName": '' @ QuoteJSONString (meta_title (meta s)) @ '','' @ NL @
     ''  "EngineVersion": '' @ QuoteJSONString (meta_minEngineVersion (meta s)) @ '','' @ NL @
     ''  "Description": '' @ QuoteJSONString (meta_description (meta s)) @ '','' @ NL @
     ''  "Category": "Editor",'' @ NL @
     ''  "CreatedBy": '' @ QuoteJSONString (meta_author (meta s)) @ '','' @ NL @
     ''  "CreatedByURL": "https://addon-architect.vercel.app",'' @ NL @
     ''  "Modules": ''
       @ (if modules s = [] then ''[]''
          else ''['' @ NL @
               ''    '' @ join ('','' @ NL @ ''    '') (map module_entry_layout (modules s)) @ NL @
               ''  ]'') @ NL @
     ''}''\<close>

subsection \<open>Hotkey tokens by table\<close>



subsection \<open>Reading a JSON string literal\<close>

text \<open>
  The string literals of the JSON grammar, read back into the string they denote: between
  two quotation marks, a backslash starts an escape (one of the eight two-character
  escapes, or \<open>u\<close> and four hexadecimal digits), a bare quotation mark or control character
  is an error, and any other character stands for itself. A \<open>u\<close> escape beyond what a
  \<open>char\<close> holds cannot be read here.
\<close>

definition hex_value :: "char \<Rightarrow> nat option" where
  "hex_value c =
     (let n = (of_char c :: nat)
      in if 48 \<le> n \<and> n \<le> 57 then Some (n - 48)
         else if 97 \<le> n \<and> n \<le> 102 then Some (n - 87)
         else if 65 \<le> n \<and> n \<le> 70 then Some (n - 55)
         else None)"

definition simple_escape :: "char \<Rightarrow> char option" where
  "simple_escape e =
     (if e = CHR 0x22 then Some (CHR 0x22)
      else if e = CHR 0x5C then Some (CHR 0x5C)
      else if e = CHR ''/'' then Some (CHR ''/'')
      else if e = CHR ''b'' then Some (CHR 0x08)
      else if e = CHR ''f'' then Some (CHR 0x0C)
      else if e = CHR ''n'' then Some (CHR 0x0A)
      else if e = CHR ''r'' then Some (CHR 0x0D)
      else if e = CHR ''t'' then Some (CHR 0x09)
      else None)"

fun json_unescape :: "string \<Rightarrow> string option" where
  "json_unescape [] = Some []"
| "json_unescape [c] =
     (if c = CHR 0x5C \<or> c = CHR 0x22 \<or> (of_char c :: nat) < 32 then None else Some [c])"
| "json_unescape (c # e # cs) =
     (if c = CHR 0x5C then
        (if e = CHR ''u'' then
           (case cs of
              h1 # h2 # h3 # h4 # rest \<Rightarrow>
                (case (hex_value h1, hex_value h2, hex_value h3, hex_value h4) of
                   (Some a, Some b, Some c, Some d) \<Rightarrow>
                     (let v = ((a * 16 + b) * 16 + c) * 16 + d
                      in if v < 256 then map_option (Cons (char_of v)) (json_unescape rest)
                         else None)
                 | _ \<Rightarrow> None)
            | _ \<Rightarrow> None)
         else (case simple_escape e of
                 None \<Rightarrow> None
               | Some x \<Rightarrow> map_option (Cons x) (json_unescape cs)))
      else if c = CHR 0x22 \<or> (of_char c :: nat) < 32 then None
      else map_option (Cons c) (json_unescape (e # cs)))"

definition decode_json_string :: "string \<Rightarrow> string option" where
  "decode_json_string lit =
     (case lit of
        [] \<Rightarrow> None
      | q # rest \<Rightarrow>
          if q = CHR 0x22 \<and> rest \<noteq> [] \<and> last rest = CHR 0x22
          then json_unescape (butlast rest) else None)"

section \<open>Properties of the store\<close>

subsection \<open>Operations whose id argument names nothing\<close>

lemma find_module_None: "find_module i ms = None \<longleftrightarrow> i \<notin> set (map mod_id ms)"
  by (auto simp: find_module_def find_None_iff)

lemma has_module_iff: "has_module i s \<longleftrightarrow> i \<in> set (map mod_id (modules s))"
  by (auto simp: has_module_def list_ex_iff)

lemma map_calls_unchanged:
  "(\<And>x j. x \<in> set xs \<Longrightarrow> f j x = (x, j)) \<Longrightarrow> map_calls f k xs = (xs, k)"
  by (induction xs arbitrary: k) simp_all

lemma map_self_conv: "(map f xs = xs) = (\<forall>x\<in>set xs. f x = x)"
  by (induction xs) auto

lemma modules_update_self: "(s\<lparr>modules := ms\<rparr> = s) = (ms = modules s)"
  by (cases s) simp

lemma mod_nodes_update_self: "(md\<lparr>mod_nodes := ns\<rparr> = md) = (ns = mod_nodes md)"
  by (cases md) simp

lemma mod_commands_update_self: "(md\<lparr>mod_commands := cs\<rparr> = md) = (cs = mod_commands md)"
  by (cases md) simp

lemma set_placement_self: "(set_placement pl ps n = n) = (ps = get_placement pl n)"
  by (cases pl; cases n) simp_all

lemmas unchanged_simps =
  map_self_conv filter_id_conv modules_update_self mod_nodes_update_self
  mod_commands_update_self set_placement_self

lemma updateModule_missing: "\<not> has_module i s \<Longrightarrow> updateModule i p s = s"
  by (auto simp: updateModule_def has_module_iff unchanged_simps)

lemma removeModule_missing_modules: "\<not> has_module i s \<Longrightarrow> modules (removeModule i s) = modules s"
  by (auto simp: removeModule_def has_module_iff Let_def unchanged_simps)

lemma addNode_missing_modules: "\<not> has_module i s \<Longrightarrow> modules (fst (addNode uuid k i s)) = modules s"
  by (auto simp: addNode_def has_module_iff split_def Let_def unchanged_simps)

lemma updateNode_missing: "\<not> has_node mi ni s \<Longrightarrow> updateNode mi ni p s = s"
  by (auto simp: updateNode_def has_node_def list_ex_iff unchanged_simps)

lemma removeNode_missing_modules: "\<not> has_node mi ni s \<Longrightarrow> modules (removeNode mi ni s) = modules s"
  by (auto simp: removeNode_def has_node_def list_ex_iff Let_def unchanged_simps)

lemma addParameter_module_missing:
  "\<not> (mod_id md = mi \<and> list_ex (\<lambda>n. node_id n = ni) (mod_nodes md)) \<Longrightarrow>
   addParameter_module uuid mi ni pl j md = (md, j)"
  by (auto simp: addParameter_module_def list_ex_iff addParameter_node_def map_calls_unchanged)

lemma addParameter_missing: "\<not> has_node mi ni s \<Longrightarrow> fst (addParameter uuid k mi ni pl s) = s"
  by (auto simp: addParameter_def has_node_def list_ex_iff addParameter_module_missing map_calls_unchanged)

lemma updateParameter_missing:
  "\<not> has_parameter mi ni pl qi s \<Longrightarrow> updateParameter mi ni pl qi p s = s"
  by (auto simp: updateParameter_def has_parameter_def list_ex_iff unchanged_simps)

lemma removeParameter_missing:
  "\<not> has_parameter mi ni pl qi s \<Longrightarrow> removeParameter mi ni pl qi s = s"
  by (auto simp: removeParameter_def has_parameter_def list_ex_iff unchanged_simps)

lemma addCommand_missing:
  assumes "\<not> has_module mi s"
  shows "fst (addCommand uuid k mi s) = s"
proof -
  have "map_calls (addCommand_module uuid mi) k (modules s) = (modules s, k)"
    by (rule map_calls_unchanged) (use assms in \<open>auto simp: addCommand_module_def has_module_iff\<close>)
  then show ?thesis by (simp add: addCommand_def)
qed

lemma updateCommand_missing: "\<not> has_command mi ci s \<Longrightarrow> updateCommand mi ci p s = s"
  by (auto simp: updateCommand_def has_command_def list_ex_iff unchanged_simps)

lemma removeCommand_missing: "\<not> has_command mi ci s \<Longrightarrow> removeCommand mi ci s = s"
  by (auto simp: removeCommand_def has_command_def list_ex_iff unchanged_simps)

lemma cloneModule_missing: "\<not> has_module i s \<Longrightarrow> cloneModule uuid k i s = (s, k)"
  using find_module_None[of i "modules s"]
  by (simp add: cloneModule_def has_module_iff)

text \<open>
  Claim C1, as amended. An operation whose id argument names no entity of the model raises
  nothing (every operation is a total function) and leaves Meta and the list of modules as
  they were. Unless it is one of \<open>selectModule\<close>, \<open>selectNode\<close>, \<open>removeModule\<close>,
  \<open>addNode\<close> and \<open>removeNode\<close>, which assign the selection without asking whether the id
  was found, it returns the model unchanged, selection included.
\<close>

theorem dangling_reference:
  assumes "dangling x s"
  shows "meta (fst (step uuid x (s, k))) = meta s
       \<and> modules (fst (step uuid x (s, k))) = modules s
       \<and> (\<not> assigns_selection x \<longrightarrow> fst (step uuid x (s, k)) = s)"
proof (cases x)
  case (SelectModule i) then show ?thesis by (simp add: selectModule_def)
next
  case (SelectNode i) then show ?thesis by (simp add: selectNode_def)
next
  case (CloneModule i) with assms show ?thesis by (simp add: cloneModule_missing)
next
  case (UpdateModule i p) with assms show ?thesis by (simp add: updateModule_missing)
next
  case (RemoveModule i) with assms show ?thesis
    by (simp add: removeModule_missing_modules) (simp add: removeModule_def Let_def)
next
  case (AddNode i) with assms show ?thesis
    by (simp add: addNode_missing_modules) (simp add: addNode_def split_def Let_def)
next
  case (UpdateNode mi ni p) with assms show ?thesis by (simp add: updateNode_missing)
next
  case (RemoveNode mi ni) with assms show ?thesis
    by (simp add: removeNode_missing_modules) (simp add: removeNode_def Let_def)
next
  case (AddParameter mi ni pl) with assms show ?thesis by (simp add: addParameter_missing)
next
  case (UpdateParameter mi ni pl qi p) with assms show ?thesis by (simp add: updateParameter_missing)
next
  case (RemoveParameter mi ni pl qi) with assms show ?thesis by (simp add: removeParameter_missing)
next
  case (AddCommand mi) with assms show ?thesis by (simp add: addCommand_missing)
next
  case (UpdateCommand mi ci p) with assms show ?thesis by (simp add: updateCommand_missing)
next
  case (RemoveCommand mi ci) with assms show ?thesis by (simp add: removeCommand_missing)
qed (use assms in simp_all)


subsection \<open>The default model and reset\<close>

lemmas default_simps =
  defaultState_def startup_calls_def initial_def createModule_def createNode_def
  createParameter_def unary_uuid_def Let_def

lemma reset_is_default: "reset uuid s = defaultState uuid"
  by (simp add: reset_def)

text \<open>The hypothesis of \<open>dangling_reference\<close> is met by cloning a module that is not there.\<close>

theorem dangling_reference_witness:
  "dangling (CloneModule ''missing'') (defaultState unary_uuid)
   \<and> fst (step unary_uuid (CloneModule ''missing'') (initial unary_uuid)) = defaultState unary_uuid"
  using dangling_reference [of "CloneModule ''missing''" "defaultState unary_uuid" unary_uuid
      "startup_calls unary_uuid"]
  by (simp add: has_module_def initial_def) (simp add: default_simps)

text \<open>
  Claim C1 as stated fails: \<open>addNode\<close> with an unknown module id, on the default model,
  selects that id and the id of a node that no module holds.
\<close>

theorem addNode_missing_module_changes_selection:
  "dangling (AddNode ''missing'') (defaultState unary_uuid)
   \<and> selectedModuleId (defaultState unary_uuid) = None
   \<and> selectedNodeId (defaultState unary_uuid) = None
   \<and> selectedModuleId (fst (step unary_uuid (AddNode ''missing'') (initial unary_uuid))) = Some ''missing''
   \<and> selectedNodeId (fst (step unary_uuid (AddNode ''missing'') (initial unary_uuid))) = Some ''id-iiiii''
   \<and> fst (step unary_uuid (AddNode ''missing'') (initial unary_uuid)) \<noteq> defaultState unary_uuid"
proof -
  have d: "dangling (AddNode ''missing'') (defaultState unary_uuid)"
    by (simp add: has_module_def default_simps)
  have m: "selectedModuleId (fst (step unary_uuid (AddNode ''missing'') (initial unary_uuid))) = Some ''missing''"
    by (simp add: initial_def addNode_def split_def Let_def)
  have n: "selectedNodeId (fst (step unary_uuid (AddNode ''missing'') (initial unary_uuid))) = Some ''id-iiiii''"
    by (simp add: addNode_def split_def default_simps eval_nat_numeral)
  have z: "selectedModuleId (defaultState unary_uuid) = None" "selectedNodeId (defaultState unary_uuid) = None"
    by (simp_all add: defaultState_def)
  from m z have "fst (step unary_uuid (AddNode ''missing'') (initial unary_uuid)) \<noteq> defaultState unary_uuid"
    by auto
  with d m n z show ?thesis by simp
qed

text \<open>
  Claim C9. For a non-null id that no module carries, \<open>selectModule\<close> sets
  \<open>selectedModuleId\<close> to that id and \<open>selectedNodeId\<close> to null, and leaves the list of
  modules and Meta as they were.
\<close>

theorem selectModule_unknown_id:
  assumes "i \<notin> set (map mod_id (modules s))"
  shows "selectedModuleId (selectModule (Some i) s) = Some i
       \<and> selectedNodeId (selectModule (Some i) s) = None
       \<and> modules (selectModule (Some i) s) = modules s
       \<and> meta (selectModule (Some i) s) = meta s"
  using assms find_module_None [of i "modules s"]
  by (simp add: selectModule_def first_node_id_def)

text \<open>The default model has no module with the id \<open>missing\<close>.\<close>

theorem selectModule_unknown_id_witness:
  "''missing'' \<notin> set (map mod_id (modules (defaultState unary_uuid)))
   \<and> selectedModuleId (selectModule (Some ''missing'') (defaultState unary_uuid)) = Some ''missing''
   \<and> selectedNodeId (selectModule (Some ''missing'') (defaultState unary_uuid)) = None
   \<and> modules (selectModule (Some ''missing'') (defaultState unary_uuid)) = modules (defaultState unary_uuid)"
proof -
  have h: "''missing'' \<notin> set (map mod_id (modules (defaultState unary_uuid)))"
    by (simp add: default_simps)
  from selectModule_unknown_id [OF h] h show ?thesis by simp
qed

text \<open>
  Claim C8. Two calls of \<open>reset()\<close> in succession leave the model of the first call;
  any two resets agree once ids are erased, whatever the generator; and the model after a
  reset has the default Meta, one module \<open>CoreModule\<close> with one node and one command,
  and no selection.
\<close>

theorem reset_idempotent:
  "fst (run uuid [Reset, Reset] w) = fst (run uuid [Reset] w)
   \<and> erase_ids (reset uuid1 s1) = erase_ids (reset uuid2 s2)
   \<and> meta (reset uuid s) = meta (defaultState uuid)
   \<and> map (\<lambda>md. (mod_name md, length (mod_nodes md), length (mod_commands md))) (modules (reset uuid s))
       = [(''CoreModule'', 1, 1)]
   \<and> selectedModuleId (reset uuid s) = None \<and> selectedNodeId (reset uuid s) = None"
proof -
  have "fst (run uuid [Reset, Reset] w) = fst (run uuid [Reset] w)"
    by (cases w) (simp add: reset_is_default)
  moreover have "erase_ids (reset uuid1 s1) = erase_ids (reset uuid2 s2)"
    by (simp add: reset_is_default erase_ids_def erase_module_def erase_node_def
        erase_command_def erase_parameter_def defaultState_def createModule_def createNode_def
        createParameter_def Let_def)
  moreover have "map (\<lambda>md. (mod_name md, length (mod_nodes md), length (mod_commands md))) (modules (reset uuid s))
       = [(''CoreModule'', 1, 1)]"
    by (simp add: reset_is_default defaultState_def createModule_def createNode_def
        createParameter_def Let_def)
  ultimately show ?thesis by (simp add: reset_is_default defaultState_def)
qed

text \<open>
  Claim C10. \<open>reset()\<close> installs the constant \<open>defaultState\<close>, which is also the model
  at startup, and calls the generator not at all: the ids of the default module, node,
  parameters and command are the first five values of the generator, at every reset. In
  that model both selections are null, although it holds one module with one node.
\<close>

theorem reset_installs_startup_default:
  "fst (step uuid Reset (s, k)) = defaultState uuid
   \<and> snd (step uuid Reset (s, k)) = k
   \<and> fst (initial uuid) = defaultState uuid
   \<and> selectedModuleId (defaultState uuid) = None
   \<and> selectedNodeId (defaultState uuid) = None
   \<and> map mod_id (modules (defaultState uuid)) = [uuid 0]
   \<and> map (\<lambda>md. map node_ids (mod_nodes md)) (modules (defaultState uuid)) = [[[uuid 1, uuid 2, uuid 3]]]
   \<and> map (\<lambda>md. map command_id (mod_commands md)) (modules (defaultState uuid)) = [[uuid 4]]"
  by (simp add: reset_is_default initial_def defaultState_def createModule_def createNode_def
        createParameter_def Let_def node_ids_def eval_nat_numeral)


subsection \<open>Cloning a module\<close>

text \<open>
  A clone takes its ids from consecutive calls of the generator: if every element of a
  list consumes as many calls as it has ids, so does the list.
\<close>

lemma map_calls_ids:
  assumes "\<And>j x. x \<in> set xs \<Longrightarrow>
             snd (f j x) = j + length (ids x) \<and> ids' (fst (f j x)) = map uuid [j..<j + length (ids x)]"
  shows "snd (map_calls f k xs) = k + length (concat (map ids xs))
       \<and> concat (map ids' (fst (map_calls f k xs))) = map uuid [k..<k + length (concat (map ids xs))]"
  using assms
proof (induction xs arbitrary: k)
  case Nil
  then show ?case by simp
next
  case (Cons x xs)
  have hd: "snd (f k x) = k + length (ids x)" "ids' (fst (f k x)) = map uuid [k..<k + length (ids x)]"
    using Cons.prems [of x k] by simp_all
  have tl: "snd (map_calls f (k + length (ids x)) xs) = k + length (ids x) + length (concat (map ids xs))"
    "concat (map ids' (fst (map_calls f (k + length (ids x)) xs)))
       = map uuid [k + length (ids x)..<k + length (ids x) + length (concat (map ids xs))]"
    using Cons.IH [of "k + length (ids x)"] Cons.prems by simp_all
  have cut: "[k..<k + length (ids x)] @ [k + length (ids x)..<k + (length (ids x) + length (concat (map ids xs)))]
      = [k..<k + (length (ids x) + length (concat (map ids xs)))]"
    by (metis add.assoc le_add1 upt_add_eq_append)
  show ?case
    using hd tl by (simp add: split_def Let_def cut add.assoc flip: map_append)
qed

lemma map_upt_three_parts:
  "uuid k # map uuid [Suc k..<Suc (k + a)] @ map uuid [Suc (k + a)..<Suc (k + a + b)]
     = map uuid [k..<Suc (k + (a + b))]"
proof -
  have "[k..<Suc (k + (a + b))] = k # [Suc k..<Suc k + (a + b)]"
    by (simp add: upt_conv_Cons del: upt_Suc)
  also have "[Suc k..<Suc k + (a + b)] = [Suc k..<Suc k + a] @ [Suc k + a..<Suc k + a + b]"
    by (metis add.assoc le_add1 upt_add_eq_append)
  finally show ?thesis by (simp del: upt_Suc)
qed

lemma clone_parameters_ids:
  "snd (map_calls (clone_parameter uuid) k ps) = k + length ps
   \<and> map param_id (fst (map_calls (clone_parameter uuid) k ps)) = map uuid [k..<k + length ps]"
  using map_calls_ids [of ps "clone_parameter uuid" "\<lambda>p. [param_id p]" "\<lambda>p. [param_id p]" uuid k]
  by (simp add: clone_parameter_def)


lemma clone_parameters_erase:
  "map erase_parameter (fst (map_calls (clone_parameter uuid) k ps)) = map erase_parameter ps"
  by (induction ps arbitrary: k) (simp_all add: split_def Let_def clone_parameter_def erase_parameter_def)

lemma clone_node_ids:
  "snd (clone_node uuid k n) = k + length (node_ids n)
   \<and> node_ids (fst (clone_node uuid k n)) = map uuid [k..<k + length (node_ids n)]"
proof -
  let ?a = "length (node_inputs n)" and ?b = "length (node_outputs n)"
  show ?thesis
    using clone_parameters_ids [of uuid "Suc k" "node_inputs n"]
      clone_parameters_ids [of uuid "Suc k + ?a" "node_outputs n"]
    by (simp add: clone_node_def node_ids_def split_def Let_def map_upt_three_parts del: upt_Suc)
qed

lemma clone_node_erase: "erase_node (fst (clone_node uuid k n)) = erase_node n"
  by (simp add: clone_node_def erase_node_def split_def Let_def clone_parameters_erase)

lemma clone_nodes_ids:
  "snd (map_calls (clone_node uuid) k ns) = k + length (concat (map node_ids ns))
   \<and> concat (map node_ids (fst (map_calls (clone_node uuid) k ns)))
       = map uuid [k..<k + length (concat (map node_ids ns))]"
  by (rule map_calls_ids) (simp add: clone_node_ids)

lemma clone_nodes_erase:
  "map erase_node (fst (map_calls (clone_node uuid) k ns)) = map erase_node ns"
  by (induction ns arbitrary: k) (simp_all add: split_def Let_def clone_node_erase)

lemma clone_commands_ids:
  "snd (map_calls (clone_command uuid) k cs) = k + length cs
   \<and> map command_id (fst (map_calls (clone_command uuid) k cs)) = map uuid [k..<k + length cs]"
  using map_calls_ids [of cs "clone_command uuid" "\<lambda>c. [command_id c]" "\<lambda>c. [command_id c]" uuid k]
  by (simp add: clone_command_def)

lemma clone_commands_erase:
  "map erase_command (fst (map_calls (clone_command uuid) k cs)) = map erase_command cs"
  by (induction cs arbitrary: k) (simp_all add: split_def Let_def clone_command_def erase_command_def)

lemma clone_module_ids:
  "snd (clone_module uuid k m) = k + length (module_ids m)
   \<and> module_ids (fst (clone_module uuid k m)) = map uuid [k..<k + length (module_ids m)]"
proof -
  let ?a = "length (concat (map node_ids (mod_nodes m)))" and ?b = "length (mod_commands m)"
  show ?thesis
    using clone_nodes_ids [of uuid "Suc k" "mod_nodes m"]
      clone_commands_ids [of uuid "Suc k + ?a" "mod_commands m"]
    by (simp add: clone_module_def module_ids_def split_def Let_def map_upt_three_parts del: upt_Suc)
qed

lemma clone_module_erase:
  "erase_module (fst (clone_module uuid k m)) = erase_module (m\<lparr>mod_name := mod_name m @ ''Copy''\<rparr>)"
  by (simp add: clone_module_def erase_module_def split_def Let_def clone_nodes_erase
      clone_commands_erase)

lemma find_module_Some: "find_module i ms = Some m \<Longrightarrow> m \<in> set ms \<and> mod_id m = i"
  by (auto simp: find_module_def find_Some_iff)

lemma find_module_unique:
  "distinct (map mod_id ms) \<Longrightarrow> m \<in> set ms \<Longrightarrow> find_module (mod_id m) ms = Some m"
  by (induction ms) (auto simp: find_module_def)

text \<open>
  Claim C3. Let \<open>m\<close> be the module that the store finds under the id \<open>i\<close> in the model
  \<open>M\<close> (by \<open>find_module_unique\<close>, any module with that id when module ids are unique),
  and let the generator keep its contract during the call: the values it returns are
  pairwise distinct and occur nowhere in \<open>M\<close>. Then \<open>cloneModule(i)\<close> appends one module.
  The id of that module and the ids of its nodes, of their input and output parameters and
  of its commands are disjoint from the ids of \<open>M\<close>, hence from those of \<open>m\<close>, and
  pairwise distinct; its name is the name of \<open>m\<close> followed by \<open>Copy\<close>; target,
  description and dependencies are those of \<open>m\<close>, and so are nodes and commands once their
  ids are erased.
\<close>

theorem cloneModule_fresh_copy:
  assumes found: "find_module i (modules M) = Some m"
    and fresh: "set (map uuid [k..<k + length (module_ids m)]) \<inter> set (state_ids M) = {}"
    and norepeat: "distinct (map uuid [k..<k + length (module_ids m)])"
  shows "modules (fst (cloneModule uuid k i M)) = modules M @ [fst (clone_module uuid k m)]
       \<and> set (module_ids (fst (clone_module uuid k m))) \<inter> set (state_ids M) = {}
       \<and> set (module_ids (fst (clone_module uuid k m))) \<inter> set (module_ids m) = {}
       \<and> distinct (module_ids (fst (clone_module uuid k m)))
       \<and> mod_name (fst (clone_module uuid k m)) = mod_name m @ ''Copy''
       \<and> mod_target (fst (clone_module uuid k m)) = mod_target m
       \<and> mod_description (fst (clone_module uuid k m)) = mod_description m
       \<and> mod_dependencies (fst (clone_module uuid k m)) = mod_dependencies m
       \<and> map erase_node (mod_nodes (fst (clone_module uuid k m))) = map erase_node (mod_nodes m)
       \<and> map erase_command (mod_commands (fst (clone_module uuid k m))) = map erase_command (mod_commands m)"
proof -
  let ?c = "fst (clone_module uuid k m)"
  have ids: "module_ids ?c = map uuid [k..<k + length (module_ids m)]"
    by (simp add: clone_module_ids)
  have "m \<in> set (modules M)"
    using found by (simp add: find_module_Some)
  then have sub: "set (module_ids m) \<subseteq> set (state_ids M)"
    by (auto simp: state_ids_def)
  have a: "modules (fst (cloneModule uuid k i M)) = modules M @ [?c]"
    using found by (simp add: cloneModule_def split_def Let_def)
  have b: "set (module_ids ?c) \<inter> set (state_ids M) = {}"
    using fresh ids by simp
  have c: "set (module_ids ?c) \<inter> set (module_ids m) = {}"
    using b sub by blast
  have d: "distinct (module_ids ?c)"
    using norepeat ids by simp
  have e: "mod_name ?c = mod_name m @ ''Copy''" "mod_target ?c = mod_target m"
    "mod_description ?c = mod_description m" "mod_dependencies ?c = mod_dependencies m"
    by (simp_all add: clone_module_def split_def Let_def)
  have f: "map erase_node (mod_nodes ?c) = map erase_node (mod_nodes m)"
    by (simp add: clone_module_def split_def Let_def clone_nodes_erase)
  have g: "map erase_command (mod_commands ?c) = map erase_command (mod_commands m)"
    by (simp add: clone_module_def split_def Let_def clone_commands_erase)
  from a b c d e f g show ?thesis by simp
qed


lemmas ids_simps = module_ids_def node_ids_def state_ids_def

text \<open>Cloning the default module after startup, when the generator has been called five times.\<close>

theorem cloneModule_fresh_copy_witness:
  "find_module ''id-'' (modules (defaultState unary_uuid)) = Some (fst (createModule unary_uuid 0))
   \<and> mod_name (last (modules (fst (cloneModule unary_uuid 5 ''id-'' (defaultState unary_uuid))))) = ''CoreModuleCopy''
   \<and> module_ids (last (modules (fst (cloneModule unary_uuid 5 ''id-'' (defaultState unary_uuid)))))
       = [''id-iiiii'', ''id-iiiiii'', ''id-iiiiiii'', ''id-iiiiiiii'', ''id-iiiiiiiii'']
   \<and> set (module_ids (last (modules (fst (cloneModule unary_uuid 5 ''id-'' (defaultState unary_uuid))))))
       \<inter> set (state_ids (defaultState unary_uuid)) = {}"
proof -
  let ?m = "fst (createModule unary_uuid 0)"
  have len: "length (module_ids ?m) = 5"
    by (simp add: ids_simps default_simps)
  have upt: "[5..<10] = [5, 6, 7, 8, 9::nat]"
    by (simp add: upt_rec)
  have h1: "find_module ''id-'' (modules (defaultState unary_uuid)) = Some ?m"
    by (simp add: find_module_def default_simps)
  have h2: "set (map unary_uuid [5..<5 + length (module_ids ?m)]) \<inter> set (state_ids (defaultState unary_uuid)) = {}"
    unfolding len by (simp add: upt) (simp add: ids_simps default_simps eval_nat_numeral)
  have h3: "distinct (map unary_uuid [5..<5 + length (module_ids ?m)])"
    unfolding len by (simp add: upt) (simp add: unary_uuid_def eval_nat_numeral)
  have ids: "module_ids (fst (clone_module unary_uuid 5 ?m)) = map unary_uuid [5..<5 + length (module_ids ?m)]"
    by (simp add: clone_module_ids)
  have nm: "mod_name ?m = ''CoreModule''"
    by (simp add: default_simps)
  from cloneModule_fresh_copy [OF h1 h2 h3] h1 ids nm show ?thesis
    unfolding len by (simp add: upt) (simp add: unary_uuid_def eval_nat_numeral)
qed


subsection \<open>The selection invariant\<close>

lemma run_invariant:
  assumes "\<And>w x. I w \<Longrightarrow> P (fst w) x \<Longrightarrow> I (step uuid x w)"
    and "I w" and "admissible P uuid xs w"
  shows "I (run uuid xs w)"
  using assms(2,3)
proof (induction xs arbitrary: w)
  case Nil
  then show ?case by simp
next
  case (Cons x xs)
  then show ?case using assms(1) by simp
qed

lemma find_module_skeleton:
  "map_option (\<lambda>m. map node_id (mod_nodes m)) (find_module i ms) = map_of (skeleton ms) i"
  by (induction ms) (simp_all add: find_module_def skeleton_def)

lemma selection_consistent_skeleton:
  "selection_consistent s =
     (case selectedNodeId s of None \<Rightarrow> True
      | Some n \<Rightarrow> (case selectedModuleId s of None \<Rightarrow> False
          | Some i \<Rightarrow> (case map_of (skeleton (modules s)) i of None \<Rightarrow> False | Some ns \<Rightarrow> n \<in> set ns)))"
  unfolding selection_consistent_def find_module_skeleton [symmetric]
  by (auto split: option.splits)

lemma selection_consistent_cong:
  assumes "skeleton (modules s') = skeleton (modules s)"
    and "selectedModuleId s' = selectedModuleId s" and "selectedNodeId s' = selectedNodeId s"
  shows "selection_consistent s' = selection_consistent s"
  unfolding selection_consistent_skeleton assms ..

lemma first_node_id_consistent:
  "selection_consistent (s\<lparr>selectedModuleId := Some i, selectedNodeId := first_node_id (find_module i (modules s))\<rparr>)"
  by (auto simp: selection_consistent_def first_node_id_def split: option.splits list.splits)

lemma selectModule_consistent: "selection_consistent (selectModule i s)"
  using first_node_id_consistent [where s = s]
  by (cases i) (auto simp: selectModule_def selection_consistent_def)

lemma removeModule_consistent: "selection_consistent (removeModule i s)"
proof -
  let ?ms = "filter (\<lambda>md. mod_id md \<noteq> i) (modules s)"
  show ?thesis
  proof (cases "?ms = [] \<or> \<not> truthy (mod_id (last ?ms))")
    case True
    then show ?thesis by (auto simp: removeModule_def Let_def selection_consistent_def)
  next
    case False
    then show ?thesis
      using first_node_id_consistent [where s = "s\<lparr>modules := ?ms\<rparr>" and i = "mod_id (last ?ms)"]
      by (simp add: removeModule_def Let_def)
  qed
qed

lemma removeNode_consistent: "selection_consistent (removeNode mi ni s)"
  using first_node_id_consistent [where s = "s\<lparr>modules := modules (removeNode mi ni s)\<rparr>" and i = mi]
  by (simp add: removeNode_def Let_def)

lemma find_module_append_fresh:
  "i \<notin> set (map mod_id ms) \<Longrightarrow> mod_id m = i \<Longrightarrow> find_module i (ms @ [m]) = Some m"
  by (induction ms) (auto simp: find_module_def)

lemma fresh_value:
  fixes uuid :: uuid_source
  assumes "inj uuid" and "A \<subseteq> uuid ` {..<k}" and "k \<le> j"
  shows "uuid j \<notin> A"
proof
  assume "uuid j \<in> A"
  then obtain i where "i < k" and "uuid j = uuid i"
    using assms(2) by auto
  then have "j = i"
    using assms(1) by (simp add: inj_eq)
  with \<open>i < k\<close> assms(3) show False by simp
qed

lemma appended_module_consistent:
  assumes "mod_id m \<notin> set (map mod_id (modules s))"
  shows "selection_consistent (s\<lparr>modules := modules s @ [m], selectedModuleId := Some (mod_id m),
            selectedNodeId := first_node_id (Some m)\<rparr>)"
  using find_module_append_fresh [OF assms refl]
  by (auto simp: selection_consistent_def first_node_id_def split: list.splits)

lemma createModule_facts:
  "mod_id (fst (createModule uuid k)) = uuid k" "snd (createModule uuid k) = k + 5"
  by (simp_all add: createModule_def createNode_def createParameter_def Let_def)


lemma clone_module_facts:
  "mod_id (fst (clone_module uuid k m)) = uuid k" "k < snd (clone_module uuid k m)"
  by (simp_all add: clone_module_ids module_ids_def) (simp add: clone_module_def split_def Let_def)

lemma find_module_map:
  "(\<And>m. mod_id (f m) = mod_id m) \<Longrightarrow> find_module i (map f ms) = map_option f (find_module i ms)"
  by (induction ms) (simp_all add: find_module_def)

lemma createNode_facts:
  "node_id (fst (createNode uuid k)) = uuid k" "snd (createNode uuid k) = k + 3"
  by (simp_all add: createNode_def createParameter_def Let_def)

lemma skeleton_map:
  "(\<And>m. m \<in> set ms \<Longrightarrow> mod_id (f m) = mod_id m \<and> map node_id (mod_nodes (f m)) = map node_id (mod_nodes m))
   \<Longrightarrow> skeleton (map f ms) = skeleton ms"
  by (simp add: skeleton_def)

lemma skeleton_map_calls:
  "(\<And>j m. m \<in> set ms \<Longrightarrow> mod_id (fst (f j m)) = mod_id m
        \<and> map node_id (mod_nodes (fst (f j m))) = map node_id (mod_nodes m))
   \<Longrightarrow> skeleton (fst (map_calls f k ms)) = skeleton ms"
  by (induction ms arbitrary: k) (simp_all add: skeleton_def split_def Let_def)

lemma map_calls_mono:
  "(\<And>j x. j \<le> snd (f j x)) \<Longrightarrow> k \<le> snd (map_calls f k xs)"
proof (induction xs arbitrary: k)
  case Nil
  then show ?case by simp
next
  case (Cons x xs)
  have "k \<le> snd (f k x)" by (rule Cons.prems)
  also have "\<dots> \<le> snd (map_calls f (snd (f k x)) xs)"
    by (rule Cons.IH) (rule Cons.prems)
  finally show ?case by (simp add: split_def Let_def)
qed

lemma map_calls_key:
  "(\<And>j x. x \<in> set xs \<Longrightarrow> key (fst (f j x)) = key x) \<Longrightarrow> map key (fst (map_calls f k xs)) = map key xs"
  by (induction xs arbitrary: k) (simp_all add: split_def Let_def)

lemma skeleton_mod_ids: "map fst (skeleton ms) = map mod_id ms"
  by (simp add: skeleton_def)

lemma addParameter_node_id: "node_id (fst (addParameter_node uuid ni pl j n)) = node_id n"
  by (cases pl) (simp_all add: addParameter_node_def split_def Let_def)

lemma addParameter_node_mono: "j \<le> snd (addParameter_node uuid ni pl j n)"
  by (simp add: addParameter_node_def split_def Let_def createParameter_def)

lemma addParameter_module_skeleton:
  "mod_id (fst (addParameter_module uuid mi ni pl j m)) = mod_id m
   \<and> map node_id (mod_nodes (fst (addParameter_module uuid mi ni pl j m))) = map node_id (mod_nodes m)"
  by (simp add: addParameter_module_def split_def Let_def map_calls_key addParameter_node_id)

lemma addParameter_module_mono: "j \<le> snd (addParameter_module uuid mi ni pl j m)"
  by (simp add: addParameter_module_def split_def Let_def map_calls_mono addParameter_node_mono)

lemma addCommand_module_skeleton:
  "mod_id (fst (addCommand_module uuid mi j m)) = mod_id m
   \<and> map node_id (mod_nodes (fst (addCommand_module uuid mi j m))) = map node_id (mod_nodes m)"
  by (simp add: addCommand_module_def)

lemma addCommand_module_mono: "j \<le> snd (addCommand_module uuid mi j m)"
  by (simp add: addCommand_module_def)

lemma set_placement_node_id [simp]: "node_id (set_placement pl ps n) = node_id n"
  by (cases pl) simp_all

lemma map_node_id_guard:
  "(\<And>n. node_id (g n) = node_id n) \<Longrightarrow>
   map node_id (map (\<lambda>n. if P n then g n else n) ns) = map node_id ns"
  by (induction ns) simp_all

lemma patch_node_id: "np_id p = None \<Longrightarrow> node_id (patch_node n p) = node_id n"
  by (simp add: patch_node_def overwrite_def)

lemma selection_step:
  assumes inj: "inj uuid" and inv: "selection_invariant uuid w" and safe: "selection_safe (fst w) x"
  shows "selection_invariant uuid (step uuid x w)"
proof -
  obtain s k where w: "w = (s, k)" by (cases w)
  from inv w have cons: "selection_consistent s"
    and ids: "set (map mod_id (modules s)) \<subseteq> uuid ` {..<k}" and k: "startup_calls uuid \<le> k"
    by (simp_all add: selection_invariant_def)
  have keep: "selection_invariant uuid (s', k')"
    if "skeleton (modules s') = skeleton (modules s)" "selectedModuleId s' = selectedModuleId s"
      "selectedNodeId s' = selectedNodeId s" "k \<le> k'" for s' k'
  proof -
    have "map mod_id (modules s') = map mod_id (modules s)"
      using that(1) skeleton_mod_ids by metis
    moreover have "uuid ` {..<k} \<subseteq> uuid ` {..<k'}"
      using that(4) by auto
    ultimately show ?thesis
      using selection_consistent_cong [OF that(1-3)] cons ids k that(4)
      by (auto simp: selection_invariant_def)
  qed
  show ?thesis
  proof (cases x)
    case (UpdateMeta u)
    then show ?thesis using w by (cases u; simp; intro keep; simp)
  next
    case (SelectModule i)
    then show ?thesis
      using w ids k selectModule_consistent [of i s]
      by (simp add: selection_invariant_def) (simp add: selectModule_def)
  next
    case (SelectNode i)
    then show ?thesis
      using w ids k safe by (simp add: selection_invariant_def selectNode_def)
  next
    case AddModule
    let ?m = "fst (createModule uuid k)"
    have "mod_id ?m \<notin> set (map mod_id (modules s))"
      using fresh_value [OF inj ids order_refl] by (simp add: createModule_facts)
    from appended_module_consistent [OF this] show ?thesis
      using AddModule w ids k
      by (auto simp: selection_invariant_def addModule_def split_def Let_def createModule_facts)
  next
    case (CloneModule i)
    show ?thesis
    proof (cases "find_module i (modules s)")
      case None
      then show ?thesis using CloneModule w inv by (simp add: cloneModule_def)
    next
      case (Some m)
      let ?c = "fst (clone_module uuid k m)"
      have "mod_id ?c \<notin> set (map mod_id (modules s))"
        using fresh_value [OF inj ids order_refl] by (simp add: clone_module_facts)
      from appended_module_consistent [OF this] show ?thesis
        using CloneModule Some w ids k clone_module_facts(2) [of k uuid m]
        by (auto simp: selection_invariant_def cloneModule_def split_def Let_def clone_module_facts(1))
    qed
  next
    case (UpdateModule i p)
    then show ?thesis
      using w safe
      by (simp, intro keep) (auto simp: updateModule_def patch_module_def overwrite_def intro!: skeleton_map)
  next
    case (RemoveModule i)
    have "set (map mod_id (modules (removeModule i s))) \<subseteq> set (map mod_id (modules s))"
      by (auto simp: removeModule_def Let_def)
    then show ?thesis
      using RemoveModule w ids k removeModule_consistent [of i s]
      by (auto simp: selection_invariant_def)
  next
    case (AddNode mi)
    let ?node = "fst (createNode uuid k)"
    let ?f = "\<lambda>md. if mod_id md = mi then md\<lparr>mod_nodes := mod_nodes md @ [?node]\<rparr> else md"
    from safe w AddNode obtain m where m: "find_module mi (modules s) = Some m"
      using find_module_None [of mi "modules s"] by (auto simp: has_module_iff)
    then have "mod_id m = mi" by (simp add: find_module_Some)
    moreover have "find_module mi (map ?f (modules s)) = map_option ?f (find_module mi (modules s))"
      by (rule find_module_map) simp
    ultimately have "selection_consistent (fst (addNode uuid k mi s))"
      using m by (simp add: addNode_def split_def Let_def selection_consistent_def)
    then have c: "selection_consistent (fst (addNode uuid k mi s))" .
    have "map mod_id (modules (fst (addNode uuid k mi s))) = map mod_id (modules s)"
      by (simp add: addNode_def split_def Let_def o_def if_distrib cong: if_cong)
    with ids have i: "set (map mod_id (modules (fst (addNode uuid k mi s)))) \<subseteq> uuid ` {..<k + 3}"
      by auto
    have n: "snd (addNode uuid k mi s) = k + 3"
      by (simp add: addNode_def split_def Let_def createNode_facts)
    show ?thesis
      unfolding AddNode w selection_invariant_def step.simps n using c i k by simp
  next
    case (UpdateNode mi ni p)
    then show ?thesis
      using w safe
      by (simp, intro keep)
        (auto simp: updateNode_def patch_node_id map_node_id_guard intro!: skeleton_map)
  next
    case (RemoveNode mi ni)
    have "map mod_id (modules (removeNode mi ni s)) = map mod_id (modules s)"
      by (simp add: removeNode_def Let_def o_def if_distrib cong: if_cong)
    then show ?thesis
      using RemoveNode w ids k removeNode_consistent [of mi ni s]
      by (simp add: selection_invariant_def)
  next
    case (AddParameter mi ni pl)
    then show ?thesis
      using w map_calls_mono [of "addParameter_module uuid mi ni pl" k "modules s", OF addParameter_module_mono]
      by (simp add: addParameter_def split_def Let_def, intro keep)
        (simp_all add: skeleton_map_calls addParameter_module_skeleton)
  next
    case (UpdateParameter mi ni pl qi p)
    then show ?thesis
      using w
      by (simp, intro keep)
        (auto simp: updateParameter_def map_node_id_guard intro!: skeleton_map)
  next
    case (RemoveParameter mi ni pl qi)
    then show ?thesis
      using w
      by (simp, intro keep)
        (auto simp: removeParameter_def map_node_id_guard intro!: skeleton_map)
  next
    case (AddCommand mi)
    then show ?thesis
      using w map_calls_mono [of "addCommand_module uuid mi" k "modules s", OF addCommand_module_mono]
      by (simp add: addCommand_def split_def Let_def, intro keep)
        (simp_all add: skeleton_map_calls addCommand_module_skeleton)
  next
    case (UpdateCommand mi ci p)
    then show ?thesis
      using w by (simp, intro keep) (auto simp: updateCommand_def intro!: skeleton_map)
  next
    case (RemoveCommand mi ci)
    then show ?thesis
      using w by (simp, intro keep) (auto simp: removeCommand_def intro!: skeleton_map)
  next
    case Reset
    have "set (map mod_id (modules (defaultState uuid))) \<subseteq> uuid ` {..<startup_calls uuid}"
      by (simp add: defaultState_def startup_calls_def createModule_facts)
    also have "\<dots> \<subseteq> uuid ` {..<k}" using k by auto
    finally show ?thesis
      using Reset w k by (simp add: selection_invariant_def reset_is_default)
        (simp add: selection_consistent_def defaultState_def)
  qed
qed


lemma initial_selection_invariant: "selection_invariant uuid (initial uuid)"
  by (simp add: selection_invariant_def initial_def)
    (simp add: selection_consistent_def defaultState_def startup_calls_def createModule_facts)

text \<open>
  Claim C2, as amended. Start from the default model and apply Mutation API operations
  such that \<open>selectNode\<close> is given null or the id of a node of the selected module,
  \<open>addNode\<close> is given the id of an existing module, and no update patch sets the id of a
  module or of a node or replaces a module's list of nodes. If the generator never
  repeats a value, then in the resulting model \<open>selectedNodeId\<close> is null or the id of a node
  of the module found under \<open>selectedModuleId\<close>.
\<close>

theorem selection_invariant_of_safe_runs:
  assumes "inj uuid" and "admissible selection_safe uuid xs (initial uuid)"
  shows "selection_consistent (fst (run uuid xs (initial uuid)))"
proof -
  have "selection_invariant uuid (run uuid xs (initial uuid))"
    using initial_selection_invariant assms(2)
    by (rule run_invariant [where I = "selection_invariant uuid" and P = selection_safe, rotated])
      (rule selection_step [OF assms(1)])
  then show ?thesis by (simp add: selection_invariant_def)
qed

lemma inj_unary_uuid: "inj unary_uuid"
proof (rule injI)
  fix a b assume "unary_uuid a = unary_uuid b"
  then have "length (unary_uuid a) = length (unary_uuid b)" by simp
  then show "a = b" by (simp add: unary_uuid_def)
qed

text \<open>
  Claim C2 as stated fails: \<open>selectNode\<close> stores whatever id it is given. After one call
  on the default model the selected node is in no module, and no module is selected.
\<close>

theorem selectNode_breaks_selection:
  "\<not> selection_consistent (fst (run unary_uuid [SelectNode (Some ''ghost'')] (initial unary_uuid)))"
  by (simp add: initial_def selectNode_def selection_consistent_def defaultState_def)

text \<open>
  A run that satisfies the hypotheses: add a module, add a node to it, select that node,
  remove it.
\<close>

theorem selection_invariant_of_safe_runs_witness:
  "inj unary_uuid
   \<and> admissible selection_safe unary_uuid
        [AddModule, AddNode ''id-iiiii'', SelectNode (Some ''id-iiiiii''), RemoveNode ''id-iiiii'' ''id-iiiiii'']
        (initial unary_uuid)
   \<and> selection_consistent (fst (run unary_uuid
        [AddModule, AddNode ''id-iiiii'', SelectNode (Some ''id-iiiiii''), RemoveNode ''id-iiiii'' ''id-iiiiii'']
        (initial unary_uuid)))"
proof -
  have a: "admissible selection_safe unary_uuid
        [AddModule, AddNode ''id-iiiii'', SelectNode (Some ''id-iiiiii''), RemoveNode ''id-iiiii'' ''id-iiiiii'']
        (initial unary_uuid)"
    by (simp add: default_simps addModule_def addNode_def selectNode_def has_module_def
        selection_consistent_def find_module_def first_node_id_def eval_nat_numeral)
  from selection_invariant_of_safe_runs [OF inj_unary_uuid a] inj_unary_uuid a show ?thesis
    by simp
qed


subsection \<open>Uniqueness of ids\<close>

lemma image_lessThan_mono: "j \<le> j' \<Longrightarrow> uuid ` {..<j} \<subseteq> uuid ` {..<(j'::nat)}"
  by auto

lemma node_good_iff:
  "node_good uuid j n \<longleftrightarrow>
     node_id n \<in> uuid ` {..<j}
     \<and> distinct (map param_id (node_inputs n)) \<and> set (map param_id (node_inputs n)) \<subseteq> uuid ` {..<j}
     \<and> distinct (map param_id (node_outputs n)) \<and> set (map param_id (node_outputs n)) \<subseteq> uuid ` {..<j}"
  by (auto simp: node_good_def node_ids_unique_def node_ids_def)

lemma module_good_iff:
  "module_good uuid j m \<longleftrightarrow>
     mod_id m \<in> uuid ` {..<j}
     \<and> distinct (map node_id (mod_nodes m)) \<and> (\<forall>n\<in>set (mod_nodes m). node_good uuid j n)
     \<and> distinct (map command_id (mod_commands m)) \<and> set (map command_id (mod_commands m)) \<subseteq> uuid ` {..<j}"
  by (auto simp: module_good_def module_ids_unique_def module_ids_def node_good_def list_all_iff)

lemma id_invariant_iff:
  "id_invariant uuid (s, k) \<longleftrightarrow>
     distinct (map mod_id (modules s)) \<and> (\<forall>m\<in>set (modules s). module_good uuid k m)
     \<and> startup_calls uuid \<le> k"
  by (auto simp: id_invariant_def ids_unique_def state_ids_def module_good_def list_all_iff)

lemma node_good_mono: "node_good uuid j n \<Longrightarrow> j \<le> j' \<Longrightarrow> node_good uuid j' n"
  using image_lessThan_mono [of j j' uuid] by (auto simp: node_good_def)

lemma module_good_mono: "module_good uuid j m \<Longrightarrow> j \<le> j' \<Longrightarrow> module_good uuid j' m"
  using image_lessThan_mono [of j j' uuid] by (auto simp: module_good_def)

lemma node_id_in_module_ids: "n \<in> set (mod_nodes m) \<Longrightarrow> node_id n \<in> set (module_ids m)"
  by (auto simp: module_ids_def node_ids_def)

lemma map_calls_good:
  assumes "\<And>j x. x \<in> set xs \<Longrightarrow> G j x \<Longrightarrow> G (snd (f j x)) (fst (f j x)) \<and> j \<le> snd (f j x)"
    and "\<And>j j' x. G j x \<Longrightarrow> j \<le> j' \<Longrightarrow> G j' x"
    and "\<forall>x\<in>set xs. G k x"
  shows "k \<le> snd (map_calls f k xs) \<and> (\<forall>y\<in>set (fst (map_calls f k xs)). G (snd (map_calls f k xs)) y)"
  using assms(1,3)
proof (induction xs arbitrary: k)
  case Nil
  then show ?case by simp
next
  case (Cons x xs)
  let ?k1 = "snd (f k x)"
  have hd: "G ?k1 (fst (f k x))" "k \<le> ?k1"
    using Cons.prems(1) [of x k] Cons.prems(2) by simp_all
  have "\<forall>y\<in>set xs. G ?k1 y"
    using Cons.prems(2) hd(2) assms(2) by auto
  then have tl: "?k1 \<le> snd (map_calls f ?k1 xs)"
    "\<forall>y\<in>set (fst (map_calls f ?k1 xs)). G (snd (map_calls f ?k1 xs)) y"
    using Cons.IH [of ?k1] Cons.prems(1) by simp_all
  have "G (snd (map_calls f ?k1 xs)) (fst (f k x))"
    using hd(1) tl(1) assms(2) by blast
  then show ?case
    using hd(2) tl by (simp add: split_def Let_def)
qed


lemma distinct_map_guard:
  "(\<And>x. key (g x) = key x) \<Longrightarrow> map key (map (\<lambda>x. if P x then g x else x) xs) = map key xs"
  by (induction xs) simp_all

lemma id_invariant_modules:
  assumes "id_invariant uuid (s, k)" and "modules s' = map f (modules s)" and "k \<le> k'"
    and "\<And>m. m \<in> set (modules s) \<Longrightarrow> module_good uuid k m \<Longrightarrow>
           mod_id (f m) = mod_id m \<and> module_good uuid k' (f m)"
  shows "id_invariant uuid (s', k')"
proof -
  from assms(1) have d: "distinct (map mod_id (modules s))"
    and g: "\<forall>m\<in>set (modules s). module_good uuid k m" and k: "startup_calls uuid \<le> k"
    by (simp_all add: id_invariant_iff)
  have "map mod_id (modules s') = map mod_id (modules s)"
    using assms(4) g by (simp add: assms(2))
  with d have "distinct (map mod_id (modules s'))" by (simp only:)
  moreover have "\<forall>m\<in>set (modules s'). module_good uuid k' m"
    using assms(4) g by (simp add: assms(2))
  ultimately show ?thesis
    using k assms(3) by (simp only: id_invariant_iff) simp
qed

lemma module_good_nodes:
  assumes "module_good uuid j m" and "distinct (map node_id ns)"
    and "\<forall>n\<in>set ns. node_good uuid j' n" and "j \<le> j'"
  shows "module_good uuid j' (m\<lparr>mod_nodes := ns\<rparr>)"
  using module_good_mono [OF assms(1,4)] assms(2,3) by (simp add: module_good_iff)

lemma module_good_commands:
  assumes "module_good uuid j m" and "distinct (map command_id cs)"
    and "set (map command_id cs) \<subseteq> uuid ` {..<j'}" and "j \<le> j'"
  shows "module_good uuid j' (m\<lparr>mod_commands := cs\<rparr>)"
  using module_good_mono [OF assms(1,4)] assms(2,3) by (simp add: module_good_iff)

lemma node_good_placement:
  assumes "node_good uuid j n" and "distinct (map param_id ps)"
    and "set (map param_id ps) \<subseteq> uuid ` {..<j'}" and "j \<le> j'"
  shows "node_good uuid j' (set_placement pl ps n)"
  using node_good_mono [OF assms(1,4)] assms(2,3) by (cases pl) (simp_all add: node_good_iff)

lemma node_good_get_placement:
  "node_good uuid j n \<Longrightarrow>
   distinct (map param_id (get_placement pl n)) \<and> set (map param_id (get_placement pl n)) \<subseteq> uuid ` {..<j}"
  by (cases pl) (simp_all add: node_good_iff)

lemma module_good_map_nodes:
  assumes "module_good uuid j m"
    and "\<And>n. n \<in> set (mod_nodes m) \<Longrightarrow> node_good uuid j n \<Longrightarrow> node_id (g n) = node_id n \<and> node_good uuid j (g n)"
  shows "module_good uuid j (m\<lparr>mod_nodes := map g (mod_nodes m)\<rparr>)"
proof (rule module_good_nodes [OF assms(1)])
  from assms(1) have d: "distinct (map node_id (mod_nodes m))"
    and g: "\<forall>n\<in>set (mod_nodes m). node_good uuid j n"
    by (simp_all add: module_good_iff)
  have "map node_id (map g (mod_nodes m)) = map node_id (mod_nodes m)"
    using assms(2) g by simp
  with d show "distinct (map node_id (map g (mod_nodes m)))" by (simp only:)
  show "\<forall>n\<in>set (map g (mod_nodes m)). node_good uuid j n"
    using assms(2) g by simp
qed simp

lemma patch_module_good:
  "mp_id p = None \<Longrightarrow> mp_nodes p = None \<Longrightarrow> mp_commands p = None \<Longrightarrow>
   mod_id (patch_module m p) = mod_id m \<and> module_good uuid j (patch_module m p) = module_good uuid j m"
  by (simp add: patch_module_def overwrite_def module_good_iff)

lemma patch_node_good:
  "np_id p = None \<Longrightarrow> np_inputs p = None \<Longrightarrow> np_outputs p = None \<Longrightarrow>
   node_id (patch_node n p) = node_id n \<and> node_good uuid j (patch_node n p) = node_good uuid j n"
  by (simp add: patch_node_def overwrite_def node_good_iff)

lemma patch_parameter_id: "pp_id p = None \<Longrightarrow> param_id (patch_parameter x p) = param_id x"
  by (simp add: patch_parameter_def overwrite_def)

lemma patch_command_id: "cp_id p = None \<Longrightarrow> command_id (patch_command c p) = command_id c"
  by (simp add: patch_command_def overwrite_def)

lemma createNode_good: "node_good uuid (k + 3) (fst (createNode uuid k))"
proof -
  have "k < k + 3" "Suc k < k + 3" "Suc (Suc k) < k + 3" by simp_all
  then show ?thesis
    by (simp add: node_good_iff createNode_def createParameter_def Let_def)
qed

lemma createModule_good: "module_good uuid (k + 5) (fst (createModule uuid k))"
proof -
  have "node_good uuid (k + 5) (fst (createNode uuid (Suc k)))"
    using createNode_good [of uuid "Suc k"] by (rule node_good_mono) simp
  moreover have "k < k + 5" "Suc k + 3 < k + 5" by simp_all
  ultimately show ?thesis
    by (simp add: module_good_iff createModule_def split_def Let_def createNode_facts)
qed

lemma distinct_nodes_ids:
  "distinct (concat (map node_ids ns)) \<Longrightarrow> distinct (map node_id ns) \<and> list_all node_ids_unique ns"
proof (induction ns)
  case Nil
  then show ?case by simp
next
  case (Cons n ns)
  from Cons.prems have here: "distinct (node_ids n)"
    and rest: "distinct (concat (map node_ids ns))"
    and apart: "set (node_ids n) \<inter> set (concat (map node_ids ns)) = {}"
    by simp_all
  have "node_id n' \<in> set (concat (map node_ids ns))" if "n' \<in> set ns" for n'
    using that by (auto simp: node_ids_def)
  moreover have "node_id n \<in> set (node_ids n)"
    by (simp add: node_ids_def)
  ultimately have "node_id n \<notin> set (map node_id ns)"
    using apart by auto
  moreover have "node_ids_unique n"
    using here by (simp add: node_ids_def node_ids_unique_def)
  ultimately show ?case
    using Cons.IH [OF rest] by simp
qed

lemma distinct_module_ids_unique: "distinct (module_ids m) \<Longrightarrow> module_ids_unique m"
  using distinct_nodes_ids [of "mod_nodes m"]
  by (simp add: module_ids_def module_ids_unique_def)

lemma clone_module_good:
  assumes "inj uuid"
  shows "module_good uuid (snd (clone_module uuid k m)) (fst (clone_module uuid k m))"
proof -
  let ?N = "length (module_ids m)"
  have ids: "module_ids (fst (clone_module uuid k m)) = map uuid [k..<k + ?N]"
    and k': "snd (clone_module uuid k m) = k + ?N"
    by (simp_all add: clone_module_ids)
  have "inj_on uuid (set [k..<k + ?N])"
    using assms by (rule inj_on_subset) simp
  then have "distinct (map uuid [k..<k + ?N])"
    by (simp add: distinct_map)
  then have "distinct (module_ids (fst (clone_module uuid k m)))"
    by (simp only: ids)
  then have "module_ids_unique (fst (clone_module uuid k m))"
    by (rule distinct_module_ids_unique)
  moreover have "set (map uuid [k..<k + ?N]) \<subseteq> uuid ` {..<k + ?N}"
    by auto
  ultimately show ?thesis
    unfolding module_good_def k' ids by simp
qed


lemma addParameter_node_good:
  assumes "inj uuid" and "node_good uuid j n"
  shows "node_good uuid (snd (addParameter_node uuid ni pl j n)) (fst (addParameter_node uuid ni pl j n))
       \<and> j \<le> snd (addParameter_node uuid ni pl j n)"
proof (cases "node_id n = ni")
  case True
  let ?ps = "get_placement pl n"
  let ?p = "fst (createParameter uuid j (if pl = Inputs then ''InputParam'' else ''OutputParam''))"
  have old: "distinct (map param_id ?ps)" "set (map param_id ?ps) \<subseteq> uuid ` {..<j}"
    using node_good_get_placement [OF assms(2)] by simp_all
  have p: "param_id ?p = uuid j"
    by (simp add: createParameter_def)
  have "uuid j \<notin> set (map param_id ?ps)"
    using fresh_value [OF assms(1) old(2) order_refl] .
  then have "distinct (map param_id (?ps @ [?p]))"
    using old(1) p by simp
  moreover have "set (map param_id (?ps @ [?p])) \<subseteq> uuid ` {..<Suc j}"
    using old(2) p by auto
  ultimately have "node_good uuid (Suc j) (set_placement pl (?ps @ [?p]) n)"
    using assms(2) by (intro node_good_placement [where j = j]) simp_all
  then show ?thesis
    using True by (simp add: addParameter_node_def split_def Let_def createParameter_def)
next
  case False
  then show ?thesis using assms(2) by (simp add: addParameter_node_def)
qed

lemma addParameter_module_good:
  assumes "inj uuid" and "module_good uuid j m"
  shows "module_good uuid (snd (addParameter_module uuid mi ni pl j m))
           (fst (addParameter_module uuid mi ni pl j m))
       \<and> j \<le> snd (addParameter_module uuid mi ni pl j m)"
proof (cases "mod_id m = mi")
  case True
  let ?r = "map_calls (addParameter_node uuid ni pl) j (mod_nodes m)"
  have "\<forall>n\<in>set (mod_nodes m). node_good uuid j n"
    using assms(2) by (simp add: module_good_iff)
  then have r: "j \<le> snd ?r" "\<forall>y\<in>set (fst ?r). node_good uuid (snd ?r) y"
    using map_calls_good [where G = "node_good uuid" and f = "addParameter_node uuid ni pl"
        and xs = "mod_nodes m" and k = j]
      addParameter_node_good [OF assms(1)] node_good_mono by blast+
  have "map node_id (fst ?r) = map node_id (mod_nodes m)"
    by (rule map_calls_key) (rule addParameter_node_id)
  then have "distinct (map node_id (fst ?r))"
    using assms(2) by (simp add: module_good_iff)
  then have "module_good uuid (snd ?r) (m\<lparr>mod_nodes := fst ?r\<rparr>)"
    using assms(2) r by (intro module_good_nodes [where j = j]) simp_all
  then show ?thesis
    using True r(1) by (simp add: addParameter_module_def split_def Let_def)
next
  case False
  then show ?thesis using assms(2) by (simp add: addParameter_module_def)
qed

lemma addCommand_module_good:
  assumes "inj uuid" and "module_good uuid j m"
  shows "module_good uuid (snd (addCommand_module uuid mi j m)) (fst (addCommand_module uuid mi j m))
       \<and> j \<le> snd (addCommand_module uuid mi j m)"
proof (cases "mod_id m = mi")
  case True
  have old: "distinct (map command_id (mod_commands m))"
    "set (map command_id (mod_commands m)) \<subseteq> uuid ` {..<j}"
    using assms(2) by (simp_all add: module_good_iff)
  have "uuid j \<notin> set (map command_id (mod_commands m))"
    using fresh_value [OF assms(1) old(2) order_refl] .
  moreover have "set (map command_id (mod_commands m)) \<subseteq> uuid ` {..<Suc j}"
    using old(2) by auto
  ultimately show ?thesis
    using True old(1) module_good_mono [OF assms(2), of "Suc j"]
    by (simp add: addCommand_module_def module_good_iff)
next
  case False
  then show ?thesis using assms(2) by (simp add: addCommand_module_def)
qed

lemma id_invariant_map_calls:
  assumes "id_invariant uuid (s, k)"
    and "\<And>j m. module_good uuid j m \<Longrightarrow>
           module_good uuid (snd (f j m)) (fst (f j m)) \<and> j \<le> snd (f j m)"
    and "\<And>j m. mod_id (fst (f j m)) = mod_id m"
  shows "id_invariant uuid (s\<lparr>modules := fst (map_calls f k (modules s))\<rparr>, snd (map_calls f k (modules s)))"
proof -
  let ?r = "map_calls f k (modules s)"
  from assms(1) have d: "distinct (map mod_id (modules s))"
    and g: "\<forall>m\<in>set (modules s). module_good uuid k m" and k: "startup_calls uuid \<le> k"
    by (simp_all add: id_invariant_iff)
  have r: "k \<le> snd ?r" "\<forall>y\<in>set (fst ?r). module_good uuid (snd ?r) y"
    using map_calls_good [where G = "module_good uuid" and f = f and xs = "modules s" and k = k]
      assms(2) module_good_mono g by blast+
  have "map mod_id (fst ?r) = map mod_id (modules s)"
    by (rule map_calls_key) (rule assms(3))
  with d have "distinct (map mod_id (fst ?r))" by (simp only:)
  then show ?thesis
    using r k by (simp add: id_invariant_iff)
qed


lemma id_invariant_same_modules:
  "id_invariant uuid (s, k) \<Longrightarrow> modules s' = modules s \<Longrightarrow> k \<le> k' \<Longrightarrow> id_invariant uuid (s', k')"
  using module_good_mono [of uuid k _ k'] by (auto simp: id_invariant_iff)

lemma id_invariant_append:
  assumes "inj uuid" and "id_invariant uuid (s, k)" and "modules s' = modules s @ [m]"
    and "mod_id m = uuid k" and "module_good uuid k' m" and "k \<le> k'"
  shows "id_invariant uuid (s', k')"
proof -
  from assms(2) have d: "distinct (map mod_id (modules s))"
    and g: "\<forall>m\<in>set (modules s). module_good uuid k m" and k: "startup_calls uuid \<le> k"
    by (simp_all add: id_invariant_iff)
  have "set (map mod_id (modules s)) \<subseteq> uuid ` {..<k}"
    using g by (auto simp: module_good_iff)
  then have "uuid k \<notin> set (map mod_id (modules s))"
    using fresh_value [OF assms(1) _ order_refl] by blast
  then show ?thesis
    using d g k assms(3-6) module_good_mono [of uuid k _ k'] by (auto simp: id_invariant_iff)
qed

lemma addModule_invariant:
  assumes inj: "inj uuid" and I: "id_invariant uuid (s, k)"
  shows "id_invariant uuid (addModule uuid k s)"
proof -
  let ?m = "fst (createModule uuid k)"
  have "module_good uuid (k + 5) ?m"
    by (rule createModule_good)
  then have "id_invariant uuid (s\<lparr>modules := modules s @ [?m], selectedModuleId := Some (mod_id ?m),
        selectedNodeId := first_node_id (Some ?m)\<rparr>, k + 5)"
    by (intro id_invariant_append [OF inj I, where m = ?m]) (simp_all add: createModule_facts(1))
  then show ?thesis
    by (simp add: addModule_def split_def Let_def createModule_facts(2))
qed

lemma cloneModule_invariant:
  assumes inj: "inj uuid" and I: "id_invariant uuid (s, k)"
  shows "id_invariant uuid (cloneModule uuid k i s)"
proof (cases "find_module i (modules s)")
  case None
  then show ?thesis using I by (simp add: cloneModule_def)
next
  case (Some m)
  let ?c = "fst (clone_module uuid k m)" and ?k = "snd (clone_module uuid k m)"
  have "module_good uuid ?k ?c"
    by (rule clone_module_good [OF inj])
  moreover have "k \<le> ?k"
    using clone_module_facts(2) [of k uuid m] by (rule less_imp_le)
  ultimately have "id_invariant uuid (s\<lparr>modules := modules s @ [?c], selectedModuleId := Some (mod_id ?c),
        selectedNodeId := first_node_id (Some ?c)\<rparr>, ?k)"
    by (intro id_invariant_append [OF inj I, where m = ?c]) (simp_all add: clone_module_facts(1))
  then show ?thesis
    using Some by (simp add: cloneModule_def split_def Let_def)
qed

lemma startup_calls_eq: "startup_calls uuid = 5"
  by (simp add: startup_calls_def createModule_facts)

lemma default_invariant:
  assumes "startup_calls uuid \<le> k"
  shows "id_invariant uuid (defaultState uuid, k)"
proof -
  have "module_good uuid (0 + 5) (fst (createModule uuid 0))"
    by (rule createModule_good)
  moreover have "0 + 5 \<le> k"
    using assms by (simp only: startup_calls_eq)
  ultimately have "module_good uuid k (fst (createModule uuid 0))"
    by (rule module_good_mono)
  moreover have "modules (defaultState uuid) = [fst (createModule uuid 0)]"
    by (simp add: defaultState_def)
  ultimately show ?thesis
    using assms by (simp add: id_invariant_iff)
qed

lemma id_step:
  assumes inj: "inj uuid" and inv: "id_invariant uuid w" and ok: "keeps_ids x"
  shows "id_invariant uuid (step uuid x w)"
proof -
  obtain s k where w: "w = (s, k)" by (cases w)
  from inv w have I: "id_invariant uuid (s, k)" by simp
  then have g: "\<forall>m\<in>set (modules s). module_good uuid k m" and k: "startup_calls uuid \<le> k"
    by (simp_all add: id_invariant_iff)
  note same = id_invariant_same_modules [OF I _ order_refl]
  note mapped = id_invariant_modules [OF I]
  show ?thesis
  proof (cases x)
    case (UpdateMeta u)
    then show ?thesis using w by (cases u) (simp_all add: same)
  next
    case (SelectModule i)
    then show ?thesis using w by (simp add: same selectModule_def)
  next
    case (SelectNode i)
    then show ?thesis using w by (simp add: same selectNode_def)
  next
    case AddModule
    have "id_invariant uuid (addModule uuid k s)"
      by (rule addModule_invariant [OF inj I])
    then show ?thesis using AddModule w by simp
  next
    case (CloneModule i)
    have "id_invariant uuid (cloneModule uuid k i s)"
      by (rule cloneModule_invariant [OF inj I])
    then show ?thesis using CloneModule w by simp
  next
    case (UpdateModule i p)
    have "id_invariant uuid (updateModule i p s, k)"
      using ok UpdateModule
      by (intro mapped [where f = "\<lambda>md. if mod_id md = i then patch_module md p else md"])
        (simp_all add: updateModule_def patch_module_good)
    then show ?thesis using UpdateModule w by simp
  next
    case (RemoveModule i)
    have "id_invariant uuid (removeModule i s, k)"
      using I by (auto simp: id_invariant_iff removeModule_def Let_def distinct_map_filter)
    then show ?thesis using RemoveModule w by simp
  next
    case (AddNode mi)
    let ?node = "fst (createNode uuid k)"
    have node: "node_good uuid (k + 3) ?node" "node_id ?node = uuid k"
      by (simp_all add: createNode_good createNode_facts)
    have "module_good uuid (k + 3) (m\<lparr>mod_nodes := mod_nodes m @ [?node]\<rparr>)"
      if m: "module_good uuid k m" for m
    proof (rule module_good_nodes [OF m])
      have "set (map node_id (mod_nodes m)) \<subseteq> uuid ` {..<k}"
        using m by (auto simp: module_good_iff node_good_iff)
      then have "uuid k \<notin> set (map node_id (mod_nodes m))"
        using fresh_value [OF inj _ order_refl] by blast
      then show "distinct (map node_id (mod_nodes m @ [?node]))"
        using m node(2) by (simp add: module_good_iff)
      show "\<forall>n\<in>set (mod_nodes m @ [?node]). node_good uuid (k + 3) n"
        using m node(1) node_good_mono [of uuid k _ "k + 3"] by (auto simp: module_good_iff)
    qed simp
    then have "id_invariant uuid (addNode uuid k mi s)"
      unfolding addNode_def split_def Let_def createNode_facts
      using module_good_mono [of uuid k _ "k + 3"]
      by (intro mapped [where f = "\<lambda>md. if mod_id md = mi
            then md\<lparr>mod_nodes := mod_nodes md @ [?node]\<rparr> else md"]) simp_all
    then show ?thesis using AddNode w by simp
  next
    case (UpdateNode mi ni p)
    have "id_invariant uuid (updateNode mi ni p s, k)"
      using ok UpdateNode
      by (intro mapped [where f = "\<lambda>md. if mod_id md = mi
            then md\<lparr>mod_nodes := map (\<lambda>node. if node_id node = ni then patch_node node p else node)
                                    (mod_nodes md)\<rparr> else md"])
        (simp_all add: updateNode_def module_good_map_nodes patch_node_good)
    then show ?thesis using UpdateNode w by simp
  next
    case (RemoveNode mi ni)
    have "module_good uuid k (m\<lparr>mod_nodes := filter (\<lambda>node. node_id node \<noteq> ni) (mod_nodes m)\<rparr>)"
      if m: "module_good uuid k m" for m
      using m by (intro module_good_nodes [OF m]) (simp_all add: module_good_iff distinct_map_filter)
    then have "id_invariant uuid (removeNode mi ni s, k)"
      by (intro mapped [where f = "\<lambda>md. if mod_id md = mi
            then md\<lparr>mod_nodes := filter (\<lambda>node. node_id node \<noteq> ni) (mod_nodes md)\<rparr> else md"])
        (simp_all add: removeNode_def Let_def)
    then show ?thesis using RemoveNode w by simp
  next
    case (AddParameter mi ni pl)
    have "id_invariant uuid (addParameter uuid k mi ni pl s)"
      unfolding addParameter_def split_def Let_def
      by (rule id_invariant_map_calls [OF I])
        (simp_all add: addParameter_module_good [OF inj] addParameter_module_skeleton)
    then show ?thesis using AddParameter w by simp
  next
    case (UpdateParameter mi ni pl qi p)
    let ?h = "\<lambda>param. if param_id param = qi then patch_parameter param p else param"
    have "node_good uuid k (set_placement pl (map ?h (get_placement pl n)) n)"
      if n: "node_good uuid k n" for n
    proof (rule node_good_placement [OF n])
      have "map param_id (map ?h (get_placement pl n)) = map param_id (get_placement pl n)"
        using ok UpdateParameter by (intro distinct_map_guard) (simp add: patch_parameter_id)
      then show "distinct (map param_id (map ?h (get_placement pl n)))"
        "set (map param_id (map ?h (get_placement pl n))) \<subseteq> uuid ` {..<k}"
        using node_good_get_placement [OF n, of pl] by (simp_all only:)
    qed simp
    then have "id_invariant uuid (updateParameter mi ni pl qi p s, k)"
      by (intro mapped [where f = "\<lambda>md. if mod_id md = mi
            then md\<lparr>mod_nodes := map (\<lambda>node. if node_id node = ni
                     then set_placement pl (map ?h (get_placement pl node)) node else node)
                                    (mod_nodes md)\<rparr> else md"])
        (simp_all add: updateParameter_def module_good_map_nodes)
    then show ?thesis using UpdateParameter w by simp
  next
    case (RemoveParameter mi ni pl qi)
    have "node_good uuid k (set_placement pl (filter (\<lambda>param. param_id param \<noteq> qi) (get_placement pl n)) n)"
      if n: "node_good uuid k n" for n
      using node_good_get_placement [OF n, of pl]
      by (intro node_good_placement [OF n]) (auto simp: distinct_map_filter)
    then have "id_invariant uuid (removeParameter mi ni pl qi s, k)"
      by (intro mapped [where f = "\<lambda>md. if mod_id md = mi
            then md\<lparr>mod_nodes := map (\<lambda>node. if node_id node = ni
                     then set_placement pl (filter (\<lambda>param. param_id param \<noteq> qi) (get_placement pl node)) node
                     else node)
                                    (mod_nodes md)\<rparr> else md"])
        (simp_all add: removeParameter_def module_good_map_nodes)
    then show ?thesis using RemoveParameter w by simp
  next
    case (AddCommand mi)
    have "id_invariant uuid (addCommand uuid k mi s)"
      unfolding addCommand_def split_def Let_def
      by (rule id_invariant_map_calls [OF I])
        (simp_all add: addCommand_module_good [OF inj] addCommand_module_skeleton)
    then show ?thesis using AddCommand w by simp
  next
    case (UpdateCommand mi ci p)
    let ?h = "\<lambda>command. if command_id command = ci then patch_command command p else command"
    have "module_good uuid k (m\<lparr>mod_commands := map ?h (mod_commands m)\<rparr>)"
      if m: "module_good uuid k m" for m
    proof (rule module_good_commands [OF m])
      have "map command_id (map ?h (mod_commands m)) = map command_id (mod_commands m)"
        using ok UpdateCommand by (intro distinct_map_guard) (simp add: patch_command_id)
      then show "distinct (map command_id (map ?h (mod_commands m)))"
        "set (map command_id (map ?h (mod_commands m))) \<subseteq> uuid ` {..<k}"
        using m unfolding module_good_iff by (simp_all only:)
    qed simp
    then have "id_invariant uuid (updateCommand mi ci p s, k)"
      by (intro mapped [where f = "\<lambda>md. if mod_id md = mi
            then md\<lparr>mod_commands := map ?h (mod_commands md)\<rparr> else md"])
        (simp_all add: updateCommand_def)
    then show ?thesis using UpdateCommand w by simp
  next
    case (RemoveCommand mi ci)
    have "module_good uuid k (m\<lparr>mod_commands := filter (\<lambda>command. command_id command \<noteq> ci) (mod_commands m)\<rparr>)"
      if m: "module_good uuid k m" for m
      using m by (intro module_good_commands [OF m]) (auto simp: module_good_iff distinct_map_filter)
    then have "id_invariant uuid (removeCommand mi ci s, k)"
      by (intro mapped [where f = "\<lambda>md. if mod_id md = mi
            then md\<lparr>mod_commands := filter (\<lambda>command. command_id command \<noteq> ci) (mod_commands md)\<rparr>
            else md"])
        (simp_all add: removeCommand_def)
    then show ?thesis using RemoveCommand w by simp
  next
    case Reset
    have "id_invariant uuid (defaultState uuid, k)"
      using k by (rule default_invariant)
    then show ?thesis using Reset w by (simp add: reset_is_default)
  qed
qed


text \<open>
  Claim C4, as amended. Start from the default model and apply Mutation API operations
  whose update patches set no \<open>id\<close> field and replace no nested list of entities
  (\<open>nodes\<close>, \<open>commands\<close>, \<open>inputs\<close>, \<open>outputs\<close>). If the generator never repeats a
  value, then in the resulting model module ids are pairwise distinct, node ids and command
  ids are pairwise distinct within their module, and parameter ids are pairwise distinct
  within the inputs list and within the outputs list of their node.
\<close>

theorem ids_unique_of_id_keeping_runs:
  assumes "inj uuid" and "admissible (\<lambda>s. keeps_ids) uuid xs (initial uuid)"
  shows "ids_unique (fst (run uuid xs (initial uuid)))"
proof -
  have "id_invariant uuid (initial uuid)"
    unfolding initial_def by (rule default_invariant) simp
  then have "id_invariant uuid (run uuid xs (initial uuid))"
    using assms(2)
    by (rule run_invariant [where I = "id_invariant uuid" and P = "\<lambda>s. keeps_ids", rotated])
      (rule id_step [OF assms(1)])
  then show ?thesis by (simp add: id_invariant_def)
qed

text \<open>
  Claim C4 as stated fails: a patch may set \<open>id\<close>. After \<open>addModule()\<close>, giving the new
  module the id of the default module leaves two modules with one id.
\<close>

theorem updateModule_duplicates_module_id:
  "\<not> ids_unique (fst (run unary_uuid
        [AddModule,
         UpdateModule ''id-iiiii''
           \<lparr> mp_id = Some ''id-'', mp_name = None, mp_target = None, mp_description = None,
             mp_dependencies = None, mp_nodes = None, mp_commands = None \<rparr>]
        (initial unary_uuid)))"
  by (simp add: default_simps addModule_def updateModule_def patch_module_def overwrite_def
      ids_unique_def eval_nat_numeral)

text \<open>A run whose only patch renames a module.\<close>

theorem ids_unique_of_id_keeping_runs_witness:
  "inj unary_uuid
   \<and> admissible (\<lambda>s. keeps_ids) unary_uuid
        [AddModule, CloneModule ''id-'', AddParameter ''id-'' ''id-i'' Inputs,
         UpdateModule ''id-''
           \<lparr> mp_id = None, mp_name = Some ''Renamed'', mp_target = None, mp_description = None,
             mp_dependencies = None, mp_nodes = None, mp_commands = None \<rparr>,
         RemoveNode ''id-'' ''id-i'', Reset]
        (initial unary_uuid)
   \<and> ids_unique (fst (run unary_uuid
        [AddModule, CloneModule ''id-'', AddParameter ''id-'' ''id-i'' Inputs,
         UpdateModule ''id-''
           \<lparr> mp_id = None, mp_name = Some ''Renamed'', mp_target = None, mp_description = None,
             mp_dependencies = None, mp_nodes = None, mp_commands = None \<rparr>,
         RemoveNode ''id-'' ''id-i'', Reset]
        (initial unary_uuid)))"
proof -
  have a: "admissible (\<lambda>s. keeps_ids) unary_uuid
        [AddModule, CloneModule ''id-'', AddParameter ''id-'' ''id-i'' Inputs,
         UpdateModule ''id-''
           \<lparr> mp_id = None, mp_name = Some ''Renamed'', mp_target = None, mp_description = None,
             mp_dependencies = None, mp_nodes = None, mp_commands = None \<rparr>,
         RemoveNode ''id-'' ''id-i'', Reset]
        (initial unary_uuid)"
    by simp
  from ids_unique_of_id_keeping_runs [OF inj_unary_uuid a] inj_unary_uuid a show ?thesis
    by (intro conjI)
qed


section \<open>Properties of the exporters\<close>

subsection \<open>Hotkeys\<close>

lemma split_on_not_Nil [simp]: "split_on c s \<noteq> []"
  by (induction s) (auto split: list.splits)



















subsection \<open>Empty parameter lists\<close>





text \<open>A node with neither inputs nor outputs.\<close>

lemma empty_lists_example:
  \<open>createBlueprintNodeSnippet
     \<lparr> node_id = ''n'', node_title = ''Ping'', node_category = ''Utilities'',
       node_description = ''Does nothing.'', node_inputs = [], node_outputs = [],
       node_body = ''return;'' \<rparr>
   = ''UFUNCTION(BlueprintCallable, Category = "Utilities")'' @ NL @
     ''static void Ping('' @ NL @
     NL @
     '');'' @ NL @ NL @
     ''// Description: Does nothing.'' @ NL @
     ''// Body Example:'' @ NL @
     ''/*'' @ NL @
     ''return;'' @ NL @
     ''*/'' @ NL @
     ''// Outputs:'' @ NL @
     ''/*'' @ NL @
     ''// void'' @ NL @
     ''*/'' @ NL @
     ''// Inputs:'' @ NL @
     ''/*'' @ NL @
     ''// none'' @ NL @
     ''*/''\<close>
  by (simp add: createBlueprintNodeSnippet_def or_else_def truthy_def snippet_outputs_def
      snippet_inputs_def)

subsection \<open>Descriptor\<close>

lemma quote_plain:
  "\<forall>c\<in>set s. quote_char c = [c] \<Longrightarrow> QuoteJSONString s = CHR 0x22 # s @ [CHR 0x22]"
  by (induction s) (simp_all add: QuoteJSONString_def)

lemma quote_target: \<open>QuoteJSONString (target_text t) = ''"'' @ target_text t @ ''"''\<close>
  by (cases t) (simp_all add: quote_plain quote_char_def)

lemma number_text_small: "number_text 3 = ''3''" "number_text 1 = ''1''"
  by code_simp+

lemma serialize_dependencies:
  "SerializeJSONProperty ''  '' ''      '' (JArray (map JString deps)) = dependencies_layout deps"
  by (simp add: dependencies_layout_def Let_def o_def)

lemma serialize_module_entry:
  "SerializeJSONProperty ''  '' ''    ''
     (JObject
       [(''Name'', JString (mod_name m)),
        (''Type'', JString (target_text (mod_target m))),
        (''LoadingPhase'', JString ''Default''),
        (''AdditionalDependencies'', JArray (map JString (mod_dependencies m)))])
   = module_entry_layout m"
proof -
  have keys: \<open>QuoteJSONString ''Name'' = ''"Name"''\<close> \<open>QuoteJSONString ''Type'' = ''"Type"''\<close>
    \<open>QuoteJSONString ''LoadingPhase'' = ''"LoadingPhase"''\<close>
    \<open>QuoteJSONString ''AdditionalDependencies'' = ''"AdditionalDependencies"''\<close>
    \<open>QuoteJSONString ''Default'' = ''"Default"''\<close>
    by (simp_all add: quote_plain quote_char_def)
  have deps: "SerializeJSONProperty ''  '' (''    '' @ ''  '') (JArray (map JString (mod_dependencies m)))
      = dependencies_layout (mod_dependencies m)"
    using serialize_dependencies [of "mod_dependencies m"] by simp
  show ?thesis
    unfolding SerializeJSONProperty.simps(4) Let_def list.map fst_conv snd_conv deps
      SerializeJSONProperty.simps(2) keys quote_target module_entry_layout_def
    by simp
qed

lemma descriptor_text: "createUPluginDescriptor s = descriptor_layout s"
proof -
  have keys: \<open>QuoteJSONString ''FileVersion'' = ''"FileVersion"''\<close>
    \<open>QuoteJSONString ''Version'' = ''"Version"''\<close>
    \<open>QuoteJSONString ''VersionName'' = ''"VersionName"''\<close>
    \<open>QuoteJSONString ''FriendlyName'' = ''"FriendlyName"''\<close>
    \<open>QuoteJSONString ''EngineVersion'' = ''"EngineVersion"''\<close>
    \<open>QuoteJSONString ''Description'' = ''"Description"''\<close>
    \<open>QuoteJSONString ''Category'' = ''"Category"''\<close>
    \<open>QuoteJSONString ''CreatedBy'' = ''"CreatedBy"''\<close>
    \<open>QuoteJSONString ''CreatedByURL'' = ''"CreatedByURL"''\<close>
    \<open>QuoteJSONString ''Modules'' = ''"Modules"''\<close>
    \<open>QuoteJSONString ''Editor'' = ''"Editor"''\<close>
    \<open>QuoteJSONString ''https://addon-architect.vercel.app'' = ''"https://addon-architect.vercel.app"''\<close>
    by (simp_all add: quote_plain quote_char_def)
  let ?entry = "\<lambda>md. JObject
       [(''Name'', JString (mod_name md)),
        (''Type'', JString (target_text (mod_target md))),
        (''LoadingPhase'', JString ''Default''),
        (''AdditionalDependencies'', JArray (map JString (mod_dependencies md)))]"
  have entries: "map (SerializeJSONProperty ''  '' ([] @ ''  '' @ ''  '')) (map ?entry (modules s))
      = map module_entry_layout (modules s)"
    unfolding map_map o_def append.simps serialize_module_entry ..
  have mods: \<open>SerializeJSONProperty ''  '' ([] @ ''  '') (JArray (map ?entry (modules s)))
      = (if modules s = [] then ''[]''
          else ''['' @ NL @
               ''    '' @ join ('','' @ NL @ ''    '') (map module_entry_layout (modules s)) @ NL @
               ''  ]'')\<close>
    unfolding SerializeJSONProperty.simps(3) Let_def append_assoc entries
    by simp
  have gap: "replicate (min 10 2) (CHR '' '') = ''  ''"
    by (simp add: numeral_2_eq_2)
  show ?thesis
    unfolding createUPluginDescriptor_def JSON_stringify_def gap Let_def
      SerializeJSONProperty.simps(4) list.map fst_conv snd_conv
      SerializeJSONProperty.simps(1,2) mods keys number_text_small descriptor_layout_def
    by simp
qed

subsection \<open>String literals of the descriptor\<close>

lemma hex_value_hex_digit: "m < 16 \<Longrightarrow> hex_value (hex_digit m) = Some m"
  by (auto simp: hex_value_def hex_digit_def Let_def)

lemma hex_value_zero: "hex_value (CHR ''0'') = Some 0"
  by (simp add: hex_value_def)

lemma json_unescape_plain:
  "c \<noteq> CHR 0x5C \<Longrightarrow> c \<noteq> CHR 0x22 \<Longrightarrow> \<not> (of_char c :: nat) < 32 \<Longrightarrow>
   json_unescape (c # rest) = map_option (Cons c) (json_unescape rest)"
  by (cases rest) simp_all

lemma json_unescape_simple:
  "simple_escape e = Some x \<Longrightarrow> e \<noteq> CHR ''u'' \<Longrightarrow>
   json_unescape (CHR 0x5C # e # rest) = map_option (Cons x) (json_unescape rest)"
  by simp

lemma json_unescape_control:
  assumes "(of_char c :: nat) < 32"
  shows "json_unescape
           ([CHR 0x5C, CHR ''u'', CHR ''0'', CHR ''0'',
             hex_digit (of_char c div 16), hex_digit (of_char c mod 16)] @ rest)
         = map_option (Cons c) (json_unescape rest)"
proof -
  have "hex_value (hex_digit (of_char c div 16)) = Some (of_char c div 16)"
    "hex_value (hex_digit (of_char c mod 16)) = Some (of_char c mod 16)"
    using assms by (simp_all add: hex_value_hex_digit)
  moreover have "(of_char c :: nat) < 256"
    using assms by simp
  ultimately show ?thesis
    by (simp add: hex_value_zero)
qed

lemma json_unescape_quote_char:
  "json_unescape (quote_char c @ rest) = map_option (Cons c) (json_unescape rest)"
proof -
  consider "c = CHR 0x08" | "c = CHR 0x09" | "c = CHR 0x0A" | "c = CHR 0x0C" | "c = CHR 0x0D"
    | "c = CHR 0x22" | "c = CHR 0x5C"
    | "c \<notin> {CHR 0x08, CHR 0x09, CHR 0x0A, CHR 0x0C, CHR 0x0D, CHR 0x22, CHR 0x5C}" "(of_char c :: nat) < 32"
    | "c \<notin> {CHR 0x08, CHR 0x09, CHR 0x0A, CHR 0x0C, CHR 0x0D, CHR 0x22, CHR 0x5C}" "\<not> (of_char c :: nat) < 32"
    by blast
  then show ?thesis
  proof cases
    case 8
    then show ?thesis
      using json_unescape_control [of c rest] by (simp add: quote_char_def)
  next
    case 9
    then show ?thesis
      using json_unescape_plain [of c rest] by (simp add: quote_char_def)
  qed (simp_all add: quote_char_def simple_escape_def)
qed

lemma json_unescape_quoted: "json_unescape (concat (map quote_char t)) = Some t"
  by (induction t) (simp_all add: json_unescape_quote_char)

lemma decode_quote: "decode_json_string (QuoteJSONString t) = Some t"
  by (simp add: decode_json_string_def QuoteJSONString_def json_unescape_quoted)


text \<open>
  Claim C5. For every model the descriptor is the document \<open>descriptor_layout\<close>: an
  object whose fields are, in this order and each on a line indented by two spaces,
  \<open>FileVersion\<close> 3, \<open>Version\<close> 1, \<open>VersionName\<close> (the version of Meta),
  \<open>FriendlyName\<close> (its title), \<open>EngineVersion\<close> (its minimum engine version),
  \<open>Description\<close> (its description), \<open>Category\<close> \<open>Editor\<close>, \<open>CreatedBy\<close> (its author),
  \<open>CreatedByURL\<close> (a fixed URL) and \<open>Modules\<close>, an array with one entry per module, in
  order, holding \<open>Name\<close>, \<open>Type\<close>, \<open>LoadingPhase\<close> \<open>Default\<close> and
  \<open>AdditionalDependencies\<close>, the module's dependencies in order. Every string of the model
  is written as a JSON string literal that denotes it: read back by the grammar of JSON,
  the literal gives the string, whatever characters it holds; a quotation mark, a backslash
  and a line feed inside it are written as their escapes. \<open>Type\<close> is the name of the
  module's target.
\<close>

theorem descriptor_document:
  "createUPluginDescriptor s = descriptor_layout s
   \<and> decode_json_string (QuoteJSONString t) = Some t
   \<and> QuoteJSONString [CHR 0x22] = [CHR 0x22, CHR 0x5C, CHR 0x22, CHR 0x22]
   \<and> QuoteJSONString [CHR 0x5C] = [CHR 0x22, CHR 0x5C, CHR 0x5C, CHR 0x22]
   \<and> QuoteJSONString [CHR 0x0A] = [CHR 0x22, CHR 0x5C, CHR ''n'', CHR 0x22]
   \<and> QuoteJSONString [CHR 0x1F] = [CHR 0x22, CHR 0x5C, CHR ''u'', CHR ''0'', CHR ''0'', CHR ''1'', CHR ''f'', CHR 0x22]
   \<and> map target_text [Editor, Runtime, EditorAndRuntime] = [''Editor'', ''Runtime'', ''EditorAndRuntime'']"
proof -
  have "QuoteJSONString [CHR 0x1F] = [CHR 0x22, CHR 0x5C, CHR ''u'', CHR ''0'', CHR ''0'', CHR ''1'', CHR ''f'', CHR 0x22]"
    by code_simp
  then show ?thesis
    by (simp add: descriptor_text decode_quote) (simp add: QuoteJSONString_def quote_char_def)
qed

end
